theory Spec2Isabelle
  imports Complex_Main "HOL-Library.Word"
begin

section \<open>Strings\<close>

text \<open>
  A string of the program is a sequence of UTF-16 code units: \<open>startsWith\<close>, \<open>slice\<close>,
  indexing and \<open>join\<close> all count code units. The phrases of \<open>explain\<close> are Russian, so
  they are written here as their code units (Cyrillic letters are U+0410..U+044F, the
  Greek letter \<open>\<alpha>\<close> is U+03B1 = 945); ASCII text is written with \<open>js\<close>.
\<close>

type_synonym js_string = "16 word list"

definition js :: "string \<Rightarrow> js_string" where
  "js s = map (\<lambda>c. of_char c) s"

text \<open>\<open>s.startsWith(p)\<close>.\<close>

definition startsWith :: "js_string \<Rightarrow> js_string \<Rightarrow> bool" where
  "startsWith s p = (take (length p) s = p)"

text \<open>\<open>s.slice(n)\<close> for \<open>n \<ge> 0\<close>: the string from code unit \<open>n\<close> on, empty when \<open>n\<close> is past the end.\<close>

definition slice :: "js_string \<Rightarrow> nat \<Rightarrow> js_string" where
  "slice s n = drop n s"

text \<open>
  \<open>s[i]\<close>: the one-unit string at index \<open>i\<close>, and \<open>undefined\<close> (here \<open>None\<close>) out of range;
  it never throws. \<open>s[i] === '+'\<close> is then false for \<open>undefined\<close>.
\<close>

definition char_at :: "js_string \<Rightarrow> nat \<Rightarrow> js_string option" where
  "char_at s i = (if i < length s then Some [s ! i] else None)"

text \<open>\<open>p.push(x)\<close> on an array, and \<open>p.join(sep)\<close>.\<close>

definition push :: "'a list \<Rightarrow> 'a \<Rightarrow> 'a list" where
  "push p x = p @ [x]"

fun join :: "js_string list \<Rightarrow> js_string \<Rightarrow> js_string" where
  "join [] sep = []"
| "join [x] sep = x"
| "join (x # y # ys) sep = x @ sep @ join (y # ys) sep"

text \<open>
  \<open>s.split(sep)\<close> for a non-empty separator, used to read the parts of a joined sentence
  back: \<open>skip\<close> counts the code units of a separator still to be passed over.
\<close>

fun split_aux :: "js_string \<Rightarrow> nat \<Rightarrow> js_string \<Rightarrow> js_string \<Rightarrow> js_string list" where
  "split_aux sep skip cur [] = [cur]"
| "split_aux sep skip cur (c # cs) =
     (if 0 < skip then split_aux sep (skip - 1) cur cs
      else if startsWith (c # cs) sep then cur # split_aux sep (length sep - 1) [] cs
      else split_aux sep 0 (cur @ [c]) cs)"

definition split :: "js_string \<Rightarrow> js_string \<Rightarrow> js_string list" where
  "split s sep = split_aux sep 0 [] s"

section \<open>The significance-code decoder \<open>explain\<close>\<close>

text \<open>The five phrases, as the source has them.\<close>

definition phrase_neg :: js_string where
  \<comment> \<open>"starshiy koeffitsient < 0": the leading coefficient is negative\<close>
  "phrase_neg = [1089, 1090, 1072, 1088, 1096, 1080, 1081, 32, 1082, 1086, 1101, 1092,
     1092, 1080, 1094, 1080, 1077, 1085, 1090, 32, 60, 32, 48]"

definition phrase_sig05 :: js_string where
  \<comment> \<open>"znachimo luchshe pri \<alpha>=0.05": significantly better at \<open>\<alpha>=0.05\<close>\<close>
  "phrase_sig05 = [1079, 1085, 1072, 1095, 1080, 1084, 1086, 32, 1083, 1091, 1095, 1096,
     1077, 32, 1087, 1088, 1080, 32, 945, 61, 48, 46, 48, 53]"

definition phrase_not05 :: js_string where
  \<comment> \<open>"ne luchshe pri \<alpha>=0.05": not better at \<open>\<alpha>=0.05\<close>\<close>
  "phrase_not05 = [1085, 1077, 32, 1083, 1091, 1095, 1096, 1077, 32, 1087, 1088, 1080,
     32, 945, 61, 48, 46, 48, 53]"

definition phrase_sig01 :: js_string where
  \<comment> \<open>"znachimo luchshe pri \<alpha>=0.01"\<close>
  "phrase_sig01 = [1079, 1085, 1072, 1095, 1080, 1084, 1086, 32, 1083, 1091, 1095, 1096,
     1077, 32, 1087, 1088, 1080, 32, 945, 61, 48, 46, 48, 49]"

definition phrase_not01 :: js_string where
  \<comment> \<open>"ne luchshe pri \<alpha>=0.01"\<close>
  "phrase_not01 = [1085, 1077, 32, 1083, 1091, 1095, 1096, 1077, 32, 1087, 1088, 1080,
     32, 945, 61, 48, 46, 48, 49]"

text \<open>
  \<^verbatim>\<open>
  function explain(code: string): string {
    const p: string[] = [];
    if (code.startsWith('*')) { p.push(<neg>); code = code.slice(1); }
    p.push(code[0] === '+' ? <sig05> : <not05>);
    p.push(code[1] === '+' ? <sig01> : <not01>);
    return p.join(', ');
  }
  \<close>
  No operation of the body can throw on a string argument, so the model has no error
  branch: the array \<open>p\<close> and the reassigned \<open>code\<close> are passed along.
\<close>

definition explain :: "js_string \<Rightarrow> js_string" where
  "explain code0 =
     (let p0 = [];
          (p1, code) = (if startsWith code0 (js ''*'')
                        then (push p0 phrase_neg, slice code0 1) else (p0, code0));
          p2 = push p1 (if char_at code 0 = Some (js ''+'') then phrase_sig05 else phrase_not05);
          p3 = push p2 (if char_at code 1 = Some (js ''+'') then phrase_sig01 else phrase_not01)
      in join p3 (js '', ''))"

subsection \<open>The spec's reading of \<open>explain\<close>\<close>

text \<open>
  The invariant of the data model: a code matches \<open>[*]?[+-][+-]\<close>.
\<close>

definition plus_or_minus :: "16 word \<Rightarrow> bool" where
  "plus_or_minus c = (c = 43 \<or> c = 45)"

fun valid_code :: "js_string \<Rightarrow> bool" where
  "valid_code [a, b] = (plus_or_minus a \<and> plus_or_minus b)"
| "valid_code [s, a, b] = (s = 42 \<and> plus_or_minus a \<and> plus_or_minus b)"
| "valid_code _ = False"

text \<open>
  The phrases the spec prescribes, in its order: the flag phrase when the code begins
  with \<open>*\<close> (that character is then consumed), the phrase for \<open>\<alpha>=0.05\<close> from the first
  remaining character and the phrase for \<open>\<alpha>=0.01\<close> from the second.
\<close>

definition spec_rest :: "js_string \<Rightarrow> js_string" where
  "spec_rest code = (case code of [] \<Rightarrow> [] | c # cs \<Rightarrow> if c = 42 then cs else code)"

definition spec_flag :: "js_string \<Rightarrow> js_string list" where
  "spec_flag code = (case code of [] \<Rightarrow> [] | c # cs \<Rightarrow> if c = 42 then [phrase_neg] else [])"

definition spec_level :: "js_string \<Rightarrow> js_string \<Rightarrow> js_string \<Rightarrow> nat \<Rightarrow> js_string" where
  "spec_level sig nots rest i =
     (case drop i rest of [] \<Rightarrow> nots | c # cs \<Rightarrow> if c = 43 then sig else nots)"

definition spec_phrases :: "js_string \<Rightarrow> js_string list" where
  "spec_phrases code =
     spec_flag code @
     [spec_level phrase_sig05 phrase_not05 (spec_rest code) 0,
      spec_level phrase_sig01 phrase_not01 (spec_rest code) 1]"

text \<open>
  The well-formed code that a string is read as: a missing or non-\<open>+\<close> character in a
  significance position counts as \<open>-\<close>.
\<close>

definition sig_char :: "js_string \<Rightarrow> nat \<Rightarrow> 16 word" where
  "sig_char rest i = (case drop i rest of [] \<Rightarrow> 45 | c # cs \<Rightarrow> if c = 43 then 43 else 45)"

definition canon_code :: "js_string \<Rightarrow> js_string" where
  "canon_code code =
     (case code of [] \<Rightarrow> [] | c # cs \<Rightarrow> if c = 42 then [42] else []) @
     [sig_char (spec_rest code) 0, sig_char (spec_rest code) 1]"

text \<open>
  The sentences as the spec words them, in English. They are not in the source: they are
  what the spec's examples expect.
\<close>

definition english_neg :: js_string where
  "english_neg = js ''leading coefficient is negative''"

definition english_sig :: "string \<Rightarrow> js_string" where
  "english_sig level = js ''significant at '' @ [945] @ js ''='' @ js level"

definition english_not :: "string \<Rightarrow> js_string" where
  "english_not level = js ''not better at '' @ [945] @ js ''='' @ js level"

section \<open>Numbers\<close>

text \<open>
  A \<open>number\<close> of the program is an IEEE double. A finite double is modelled by its exact
  value, a real number; \<open>-0\<close> and \<open>0\<close> are then the same value, which \<open>fmt\<close> does not tell
  apart either (\<open>Math.abs\<close> of both is below the threshold). \<open>NaN\<close> and the infinities are
  not modelled: the data are finite. Every theorem below that holds for all reals holds
  for all finite doubles.

  \<open>round_double\<close> is the rounding of a real to the nearest double, ties to even, that
  gives a decimal literal and the result of an arithmetic operation their value:
  53 significant bits, the exponent no lower than that of the subnormals. A result of
  magnitude \<open>2^1024\<close> or more stands for an infinity.
\<close>

type_synonym number = real

fun bitlen :: "nat \<Rightarrow> nat" where
  "bitlen n = (if n = 0 then 0 else Suc (bitlen (n div 2)))"

declare bitlen.simps [simp del]

definition pow2 :: "int \<Rightarrow> real" where
  "pow2 e = (if 0 \<le> e then 2 ^ nat e else 1 / 2 ^ nat (- e))"

text \<open>The binary exponent of a positive real (\<open>ilog2_bounds\<close> below).\<close>

definition ilog2 :: "real \<Rightarrow> int" where
  "ilog2 r = (if 1 \<le> r then int (bitlen (nat \<lfloor>r\<rfloor>)) - 1
              else - int (bitlen (nat (\<lceil>1 / r\<rceil> - 1))))"

definition round_double :: "real \<Rightarrow> number" where
  "round_double r =
     (if r = 0 then 0
      else let a = \<bar>r\<bar>;
               e = max (ilog2 a) (- 1022);
               u = pow2 (e - 52);
               q = \<lfloor>a / u\<rfloor>;
               f = a / u - of_int q;
               m = (if 1 / 2 < f \<or> (f = 1 / 2 \<and> odd q) then q + 1 else q)
           in sgn r * (of_int m * u))"

subsection \<open>Decimal digits\<close>

definition digit :: "nat \<Rightarrow> 16 word" where
  "digit d = of_nat (48 + d)"

text \<open>The decimal representation of a natural number, no leading zeros; \<open>"0"\<close> for zero.\<close>

fun digits :: "nat \<Rightarrow> js_string" where
  "digits n = (if n < 10 then [digit n] else digits (n div 10) @ [digit (n mod 10)])"

declare digits.simps [simp del]

subsection \<open>\<open>Number::toString\<close> from \<open>10^21\<close> on\<close>

text \<open>
  \<open>toFixed\<close> hands a value of magnitude \<open>10^21\<close> or more to the number-to-string
  conversion of the language. For a positive double \<open>x\<close> that conversion takes integers
  \<open>n\<close>, \<open>k\<close> and \<open>s\<close> with \<open>k \<ge> 1\<close>, \<open>10^(k-1) \<le> s < 10^k\<close>, \<open>s * 10^(n-k)\<close> rounding to the
  double \<open>x\<close>, and \<open>k\<close> as small as possible; among several \<open>s\<close> it takes the one whose
  \<open>s * 10^(n-k)\<close> is closest to \<open>x\<close>, the even one of two equally close. From \<open>10^21\<close> on,
  \<open>n\<close> is above 21 and the result is in exponent notation: the digits of \<open>s\<close>, a point
  after the first when there are several, then \<open>e+\<close> and the digits of \<open>n - 1\<close>.

  \<open>shortest x n k\<close> searches \<open>k\<close> upwards from 1 to 17; \<open>n\<close> is the number of digits of \<open>x\<close>,
  and the decimal may also have one digit more (when \<open>x\<close> lies just below a power of
  ten). Seventeen digits always suffice for a double, so the first branch of \<open>shortest\<close>
  is there only to make the function total.
\<close>

definition rounds_to :: "nat \<Rightarrow> number \<Rightarrow> bool" where
  "rounds_to v x = (round_double (of_nat v) = x)"

definition candidates :: "number \<Rightarrow> nat \<Rightarrow> nat \<Rightarrow> (nat \<times> nat) list" where
  "candidates x k n =
     (let p = 10 ^ (n - k); s0 = nat \<lfloor>x / of_nat p\<rfloor>
      in map (\<lambda>s. (s, n))
           (filter (\<lambda>s. 10 ^ (k - 1) \<le> s \<and> s < 10 ^ k \<and> rounds_to (s * p) x)
              [s0, s0 + 1]))"

definition distance :: "number \<Rightarrow> nat \<Rightarrow> nat \<times> nat \<Rightarrow> real" where
  "distance x k c = \<bar>of_nat (fst c * 10 ^ (snd c - k)) - x\<bar>"

fun closest :: "number \<Rightarrow> nat \<Rightarrow> nat \<times> nat \<Rightarrow> (nat \<times> nat) list \<Rightarrow> nat \<times> nat" where
  "closest x k c [] = c"
| "closest x k c (d # ds) =
     closest x k
       (if distance x k d < distance x k c \<or>
           (distance x k d = distance x k c \<and> even (fst d)) then d else c) ds"

function shortest :: "number \<Rightarrow> nat \<Rightarrow> nat \<Rightarrow> nat \<times> nat" where
  "shortest x n k =
     (if 17 < k then (nat \<lfloor>x / of_nat (10 ^ (n - 17))\<rfloor>, n)
      else case candidates x k n @ candidates x k (n + 1) of
             [] \<Rightarrow> shortest x n (k + 1)
           | c # cs \<Rightarrow> closest x k c cs)"
  by pat_completeness auto
termination
  by (relation "measure (\<lambda>(x, n, k). 18 - k)") auto

declare shortest.simps [simp del]

definition exp_string :: "nat \<times> nat \<Rightarrow> js_string" where
  "exp_string sn =
     (let d = digits (fst sn); e = digits (snd sn - 1)
      in (if length d = 1 then d else take 1 d @ js ''.'' @ drop 1 d) @ js ''e+'' @ e)"

definition toString_large :: "number \<Rightarrow> js_string" where
  "toString_large x = exp_string (shortest x (length (digits (nat \<lfloor>x\<rfloor>))) 1)"

subsection \<open>\<open>toFixed\<close>\<close>

text \<open>
  \<open>x.toFixed(f)\<close> for a finite \<open>x\<close> and \<open>0 \<le> f \<le> 100\<close>, as the language defines it on the
  exact value of \<open>x\<close>: the sign is split off; a magnitude of \<open>10^21\<close> or more is converted
  as above; otherwise \<open>n\<close> is the integer for which \<open>n / 10^f - x\<close> is closest to zero, the
  larger one of two, its digits are padded with zeros on the left to \<open>f + 1\<close> digits,
  and the point goes before the last \<open>f\<close> digits.
\<close>

definition toFixed :: "number \<Rightarrow> nat \<Rightarrow> js_string" where
  "toFixed x0 f =
     (let s = (if x0 < 0 then js ''-'' else []);
          x = \<bar>x0\<bar>
      in if 10 ^ 21 \<le> x then s @ toString_large x
         else let n = nat \<lfloor>x * 10 ^ f + 1 / 2\<rfloor>;
                  m = digits n
              in if f \<noteq> 0
                 then let k = length m;
                          m' = (if k \<le> f then replicate (f + 1 - k) 48 @ m else m);
                          k' = (if k \<le> f then f + 1 else k);
                          a = take (k' - f) m';
                          b = drop (k' - f) m'
                      in s @ a @ js ''.'' @ b
                 else s @ m)"

subsection \<open>\<open>replace(/\.?0+$/, '')\<close>\<close>

text \<open>
  The pattern is an optional point, one or more zeros, and the end of the string.
  \<open>tail_match s\<close> says that the whole of \<open>s\<close> is a point-and-zeros or a zeros; the regular
  expression matches at the leftmost position whose rest is so, and \<open>replace\<close> with the
  empty string then cuts the string there. Without a match the string is unchanged.
\<close>

fun zeros :: "js_string \<Rightarrow> bool" where
  "zeros [] = False"
| "zeros [c] = (c = 48)"
| "zeros (c # cs) = (c = 48 \<and> zeros cs)"

fun tail_match :: "js_string \<Rightarrow> bool" where
  "tail_match [] = False"
| "tail_match (c # cs) = ((c = 46 \<and> zeros cs) \<or> zeros (c # cs))"

fun replace_trailing :: "js_string \<Rightarrow> js_string" where
  "replace_trailing [] = []"
| "replace_trailing (c # cs) =
     (if tail_match (c # cs) then [] else c # replace_trailing cs)"

subsection \<open>\<open>fmt\<close>\<close>

text \<open>
  \<^verbatim>\<open>
  function fmt(x: number): string {
    return Math.abs(x) < 1e-12 ? '0' : x.toFixed(6).replace(/\.?0+$/, '');
  }
  \<close>
  The literal \<open>1e-12\<close> is the double nearest to \<open>10^-12\<close>, which lies a little below it.
\<close>

definition lit_1e_12 :: number where
  "lit_1e_12 = round_double (1 / 10 ^ 12)"

definition fmt :: "number \<Rightarrow> js_string" where
  "fmt x = (if \<bar>x\<bar> < lit_1e_12 then js ''0'' else replace_trailing (toFixed x 6))"

text \<open>The number of points in a string.\<close>

definition dots :: "js_string \<Rightarrow> nat" where
  "dots t = length (filter (\<lambda>c. c = 46) t)"


subsection \<open>Reading a decimal numeral\<close>

text \<open>
  The number that a string of the form \<open>-?d+(.d+)?(e+d+)?\<close> denotes, exactly, and \<open>None\<close>
  for any other string. It is not in the source: it states what "parsing the result
  back" gives for the strings \<open>fmt\<close> returns.
\<close>

definition is_digit :: "16 word \<Rightarrow> bool" where
  "is_digit c = (48 \<le> c \<and> c \<le> 57)"

definition digits_value :: "js_string \<Rightarrow> nat" where
  "digits_value s = foldl (\<lambda>v c. 10 * v + (unat c - 48)) 0 s"

text \<open>The value of a digit string read as the digits after a point.\<close>

definition frac :: "js_string \<Rightarrow> real" where
  "frac b = of_nat (digits_value b) / 10 ^ length b"

definition int_part :: "js_string \<Rightarrow> js_string" where
  "int_part s = takeWhile is_digit s"

definition after_int :: "js_string \<Rightarrow> js_string" where
  "after_int s = dropWhile is_digit s"

definition has_point :: "js_string \<Rightarrow> bool" where
  "has_point r = startsWith r (js ''.'')"

definition frac_part :: "js_string \<Rightarrow> js_string" where
  "frac_part r = (if has_point r then takeWhile is_digit (drop 1 r) else [])"

definition after_frac :: "js_string \<Rightarrow> js_string" where
  "after_frac r = (if has_point r then dropWhile is_digit (drop 1 r) else r)"

definition has_exp :: "js_string \<Rightarrow> bool" where
  "has_exp r = startsWith r (js ''e+'')"

definition exp_part :: "js_string \<Rightarrow> js_string" where
  "exp_part r = (if has_exp r then takeWhile is_digit (drop 2 r) else [])"

definition after_exp :: "js_string \<Rightarrow> js_string" where
  "after_exp r = (if has_exp r then dropWhile is_digit (drop 2 r) else r)"

definition unsigned_value :: "js_string \<Rightarrow> real option" where
  "unsigned_value s =
     (let r1 = after_int s; r2 = after_frac r1
      in if int_part s = [] \<or> (has_point r1 \<and> frac_part r1 = []) \<or>
            (has_exp r2 \<and> exp_part r2 = []) \<or> after_exp r2 \<noteq> [] then None
         else Some ((of_nat (digits_value (int_part s)) +
                     of_nat (digits_value (frac_part r1)) / 10 ^ length (frac_part r1)) *
                    10 ^ digits_value (exp_part r2)))"

definition decimal_value :: "js_string \<Rightarrow> real option" where
  "decimal_value s =
     (if startsWith s (js ''-'') then map_option uminus (unsigned_value (drop 1 s))
      else unsigned_value s)"


section \<open>The report\<close>

subsection \<open>Constants and data model\<close>

definition EPS_RATIO :: number where
  "EPS_RATIO = round_double (2 / 100)"

text \<open>The class names of \<open>CLS\<close>.\<close>

definition CLS_body :: js_string where "CLS_body = js ''rep-body''"
definition CLS_h1 :: js_string where "CLS_h1 = js ''rep-title''"
definition CLS_section :: js_string where "CLS_section = js ''rep-section''"
definition CLS_table :: js_string where "CLS_table = js ''rep-table''"
definition CLS_caption :: js_string where "CLS_caption = js ''rep-caption''"
definition CLS_thead :: js_string where "CLS_thead = js ''rep-thead''"
definition CLS_tbodyEven :: js_string where "CLS_tbodyEven = js ''rep-row-even''"
definition CLS_img :: js_string where "CLS_img = js ''rep-img''"

text \<open>
  \<^verbatim>\<open>
  interface Model { degree: number; coef: number[]; var: number; sd: number;
                    code: string; comment?: string; }
  interface OperationInfo { models: Model[]; image: string; }
  type ReportData = Record<string, OperationInfo>;
  \<close>
  The field \<open>image\<close> is \<open>image_file\<close> here (\<open>image\<close> is the image of a set in HOL).
\<close>

record Model =
  degree :: number
  coef :: "number list"
  var :: number
  sd :: number
  code :: js_string
  comment :: "js_string option"

record OperationInfo =
  models :: "Model list"
  image_file :: js_string

subsection \<open>Objects and the order of their keys\<close>

text \<open>
  An object with string keys is the list of its properties in the order of their
  creation, the keys distinct. Defining a property that exists replaces its value where
  it stands; a new property goes to the end. An object written as JSON (or as an object
  literal) is built by defining its members one after the other.
\<close>

type_synonym 'v js_object = "(js_string \<times> 'v) list"

type_synonym ReportData = "OperationInfo js_object"

fun obj_define :: "'v js_object \<Rightarrow> js_string \<Rightarrow> 'v \<Rightarrow> 'v js_object" where
  "obj_define [] k v = [(k, v)]"
| "obj_define ((k', v') # ps) k v =
     (if k' = k then (k', v) # ps else (k', v') # obj_define ps k v)"

definition from_json :: "(js_string \<times> 'v) list \<Rightarrow> 'v js_object" where
  "from_json members = foldl (\<lambda>obj (k, v). obj_define obj k v) [] members"

text \<open>
  A key is an array index when it is the canonical decimal numeral of an integer from 0
  to \<open>2^32 - 2\<close>. \<open>Object.entries\<close> lists the own properties of an object with the array
  indices first, in ascending numeric order, and then the other string keys in the
  order of their creation.
\<close>

definition array_index :: "js_string \<Rightarrow> nat option" where
  "array_index k =
     (let n = digits_value k in if k = digits n \<and> n < 2 ^ 32 - 1 then Some n else None)"

definition index_key :: "js_string \<times> 'v \<Rightarrow> nat" where
  "index_key p = (case array_index (fst p) of Some i \<Rightarrow> i | None \<Rightarrow> 0)"

definition Object_entries :: "'v js_object \<Rightarrow> (js_string \<times> 'v) list" where
  "Object_entries obj =
     sort_key index_key (filter (\<lambda>p. array_index (fst p) \<noteq> None) obj) @
     filter (\<lambda>p. array_index (fst p) = None) obj"

subsection \<open>The element tree\<close>

text \<open>
  What a component returns: text, numbers (\<open>{m.degree}\<close> is a number child) and elements
  with a tag, props and children. A fragment is the list of its children; a prop whose
  value is \<open>undefined\<close> is absent; \<open>key\<close> props are not part of the output.
\<close>

datatype prop_value =
    Str js_string
  | Style "(string \<times> js_string) list"
  | Ref
  | OnClick

datatype node =
    Text js_string
  | Num number
  | Elem string "(string \<times> prop_value) list" "node list"

subsection \<open>\<open>Intro\<close>\<close>

text \<open>
  The two sections of \<open>Intro\<close>, "Kak rabotaet polinomialnaya regressiya" (how polynomial
  regression works) and "Spravochnik terminov" (glossary), with their Russian text as
  code units (160 is the no-break space). The lines of a text are joined as JSX does:
  each line trimmed of spaces, empty lines dropped, one space between lines.
\<close>

definition Intro :: "node list" where
  "Intro =
    [Elem ''section'' [(''className'', Str CLS_section)]
       [Elem ''h2'' []
          [Text ([1050, 1072, 1082, 32, 1088, 1072, 1073, 1086, 1090, 1072, 1077, 1090, 32,
               1087, 1086, 1083, 1080, 1085, 1086, 1084, 1080, 1072, 1083, 1100, 1085, 1072,
               1103, 32, 1088, 1077, 1075, 1088, 1077, 1089, 1089, 1080, 1103])],
        Elem ''p'' []
          [Text ([1042, 1088, 1077, 1084, 1103, 32]),
           Elem ''em'' [] [Text (js ''y'')],
           Text ([32, 1072, 1087, 1087, 1088, 1086, 1082, 1089, 1080, 1084, 1080, 1088, 1091,
               1077, 1090, 1089, 1103, 32, 1087, 1086, 1083, 1080, 1085, 1086, 1084, 1086,
               1084, 32, 1089, 1090, 1077, 1087, 1077, 1085, 1080, 160]),
           Elem ''em'' [] [Text (js ''k'')],
           Text ([32, 1086, 1090, 160, 1088, 1072, 1079, 1084, 1077, 1088, 1072, 32, 1076,
               1072, 1085, 1085, 1099, 1093, 32]),
           Elem ''em'' [] [Text (js ''n'')],
           Text (js '':'')],
        Elem ''p'' []
          [Elem ''code'' []
             [Text (js ''y = a''),
              Elem ''sub'' [] [Text (js ''0'')],
              Text (js '' + a''),
              Elem ''sub'' [] [Text (js ''1'')],
              Text ([110, 32, 43, 32, 8230, 32, 43, 32, 97]),
              Elem ''sub'' [] [Text (js ''k'')],
              Text (js ''n''),
              Elem ''sup'' [] [Text (js ''k'')]],
           Text (js ''.'')],
        Elem ''p'' []
          [Text ([1050, 1086, 1101, 1092, 1092, 1080, 1094, 1080, 1077, 1085, 1090, 1099, 32]),
           Elem ''code'' [] [Text (js ''a_i'')],
           Text ([32, 1085, 1072, 1093, 1086, 1076, 1103, 1090, 1089, 1103, 32, 1084, 1077,
               1090, 1086, 1076, 1086, 1084]),
           Text (js '' ''),
           Elem ''abbr'' [(''title'', Str ([79, 114, 100, 105, 110, 97, 114, 121, 32, 76, 101,
               97, 115, 116, 32, 83, 113, 117, 97, 114, 101, 115, 32, 8211, 32, 1084, 1077,
               1090, 1086, 1076, 32, 1085, 1072, 1080, 1084, 1077, 1085, 1100, 1096, 1080,
               1093, 32, 1082, 1074, 1072, 1076, 1088, 1072, 1090, 1086, 1074]))]
             [Text (js ''OLS'')],
           Text ([44, 32, 1084, 1080, 1085, 1080, 1084, 1080, 1079, 1080, 1088, 1091, 1102,
               1097, 1080, 1084, 32, 1089, 1091, 1084, 1084, 1091, 32, 1082, 1074, 1072, 1076,
               1088, 1072, 1090, 1086, 1074, 32]),
           Elem ''em'' [] [Text ([1086, 1089, 1090, 1072, 1090, 1082, 1086, 1074])],
           Text ([160]),
           Elem ''code'' [] [Text (js ''resid'')],
           Text ([46, 32, 70, 8209, 1090, 1077, 1089, 1090, 32, 1087, 1088, 1086, 1074, 1077,
               1088, 1103, 1077, 1090, 44, 32, 1091, 1083, 1091, 1095, 1096, 1072, 1077, 1090,
               160, 1083, 1080, 32, 1076, 1086, 1073, 1072, 1074, 1083, 1077, 1085, 1080,
               1077, 32, 1085, 1086, 1074, 1086, 1075, 1086, 32, 1095, 1083, 1077, 1085, 1072,
               32, 1090, 1086, 1095, 1085, 1086, 1089, 1090, 1100, 32, 1084, 1086, 1076, 1077,
               1083, 1080, 46])],
        Elem ''p'' []
          [Text ([1045, 1089, 1083, 1080, 32, 1086, 1090, 1085, 1086, 1089, 1080, 1090, 1077,
               1083, 1100, 1085, 1099, 1081, 32, 1074, 1077, 1089, 32, 1089, 1090, 1072, 1088,
               1096, 1077, 1075, 1086, 32, 1082, 1086, 1101, 1092, 1092, 1080, 1094, 1080,
               1077, 1085, 1090, 1072, 32, 124, 97]),
           Elem ''sub'' [] [Text (js ''k'')],
           Text ([124, 160, 47, 160, 109, 97, 120]),
           Elem ''sub'' [] [Text (js ''i<k'')],
           Text (js ''|a''),
           Elem ''sub'' [] [Text (js ''i'')],
           Text ([124, 160, 60, 160]),
           Text (toFixed (round_double (EPS_RATIO * 100)) 0),
           Text ([160, 37, 44, 32, 1095, 1083, 1077, 1085, 32, 1089, 1095, 1080, 1090, 1072,
               1077, 1090, 1089, 1103, 32]),
           Elem ''em'' [] [Text ([1092, 1080, 1082, 1090, 1080, 1074, 1085, 1099, 1084])],
           Text ([32, 1080, 32, 1086, 1090, 1084, 1077, 1095, 1072, 1077, 1090, 1089, 1103,
               32, 1074, 160, 1090, 1072, 1073, 1083, 1080, 1094, 1072, 1093, 46])]],
     Elem ''section'' [(''className'', Str CLS_section)]
       [Elem ''h2'' []
          [Text ([1057, 1087, 1088, 1072, 1074, 1086, 1095, 1085, 1080, 1082, 32, 1090, 1077,
               1088, 1084, 1080, 1085, 1086, 1074])],
        Elem ''ul'' []
          [Elem ''li'' []
             [Elem ''b'' [] [Text (js ''Residual (resid)'')],
              Text ([160, 8212, 32, 1088, 1072, 1079, 1085, 1080, 1094, 1072, 32, 1084, 1077,
                  1078, 1076, 1091, 32, 1092, 1072, 1082, 1090, 1086, 1084, 32, 1080, 160,
                  1087, 1088, 1086, 1075, 1085, 1086, 1079, 1086, 1084, 46])],
           Elem ''li'' []
             [Elem ''b'' [] [Text (js ''RSS'')],
              Text ([160, 8212, 32, 1089, 1091, 1084, 1084, 1072, 32, 1082, 1074, 1072, 1076,
                  1088, 1072, 1090, 1086, 1074, 32, 114, 101, 115, 105, 100, 46])],
           Elem ''li'' []
             [Elem ''b'' [] [Text ([963, 178])],
              Text ([160, 40, 68, 91, 88, 93, 41, 160, 8212, 32, 1086, 1094, 1077, 1085, 1082,
                  1072, 32, 1076, 1080, 1089, 1087, 1077, 1088, 1089, 1080, 1080, 58, 32, 82,
                  83, 83, 160, 47, 160, 40, 78, 160, 8722, 160, 107, 160, 8722, 160, 49, 41,
                  46])],
           Elem ''li'' []
             [Elem ''b'' [] [Text ([1057, 1050, 1054])],
              Text ([160, 8212, 32, 1089, 1090, 1072, 1085, 1076, 1072, 1088, 1090, 1085,
                  1086, 1077, 32, 1086, 1090, 1082, 1083, 1086, 1085, 1077, 1085, 1080, 1077,
                  32, 61, 32, 8730, 963, 178, 46])],
           Elem ''li'' []
             [Elem ''b'' [] [Text ([70, 8209, 1090, 1077, 1089, 1090])],
              Text ([160, 8212, 32, 1087, 1088, 1086, 1074, 1077, 1088, 1082, 1072, 32, 1089,
                  1090, 1072, 1090, 1080, 1089, 1090, 1080, 1095, 1077, 1089, 1082, 1086,
                  1081, 32, 1079, 1085, 1072, 1095, 1080, 1084, 1086, 1089, 1090, 1080, 32,
                  1085, 1086, 1074, 1086, 1075, 1086, 32, 1095, 1083, 1077, 1085, 1072, 46])]]]]"

subsection \<open>\<open>RegressionReport\<close>\<close>

definition text_title :: js_string where
  \<comment> \<open>"Otchyot regressionnogo analiza": regression analysis report\<close>
  "text_title = [1054, 1090, 1095, 1105, 1090, 32, 1088, 1077, 1075, 1088, 1077, 1089, 1089,
     1080, 1086, 1085, 1085, 1086, 1075, 1086, 32, 1072, 1085, 1072, 1083, 1080, 1079, 1072]"

definition text_operation :: js_string where
  \<comment> \<open>"Operatsiya: "\<close>
  "text_operation = [1054, 1087, 1077, 1088, 1072, 1094, 1080, 1103, 58, 32]"

definition text_chart :: js_string where
  \<comment> \<open>"grafik "\<close>
  "text_chart = [1075, 1088, 1072, 1092, 1080, 1082, 32]"

definition th :: "js_string \<Rightarrow> node" where
  "th s = Elem ''th'' [] [Text s]"

definition table_head :: node where
  \<comment> \<open>deg, a0 .. a4, D[X], "SKO", "Kod", "Poyasnenie", "Kommentariy"\<close>
  "table_head =
     Elem ''thead'' [(''className'', Str CLS_thead)]
       [Elem ''tr'' []
          [th (js ''deg''), th (js ''a0''), th (js ''a1''), th (js ''a2''), th (js ''a3''),
           th (js ''a4''), th (js ''D[X]''), th [1057, 1050, 1054], th [1050, 1086, 1076],
           th [1055, 1086, 1103, 1089, 1085, 1077, 1085, 1080, 1077],
           th [1050, 1086, 1084, 1084, 1077, 1085, 1090, 1072, 1088, 1080, 1081]]]"

text \<open>
  One body row:
  \<^verbatim>\<open>
  <tr key={idx} className={idx % 2 ? CLS.tbodyEven : undefined}>
    <td>{m.degree}</td>
    {m.coef.map((c, i) => (<td key={i}>{fmt(c)}</td>))}
    <td>{fmt(m.var)}</td> <td>{fmt(m.sd)}</td> <td>{m.code}</td>
    <td>{explain(m.code)}</td> <td>{m.comment || NBSP}</td>
  </tr>
  \<close>
  \<open>NBSP\<close> stands for the string of one no-break space (U+00A0 = 160), which
  \<open>m.comment || NBSP\<close> gives for a missing and for an empty comment.
\<close>

definition table_row :: "nat \<Rightarrow> Model \<Rightarrow> node" where
  "table_row idx m =
     Elem ''tr'' (if idx mod 2 \<noteq> 0 then [(''className'', Str CLS_tbodyEven)] else [])
       ([Elem ''td'' [] [Num (degree m)]] @
        map (\<lambda>c. Elem ''td'' [] [Text (fmt c)]) (coef m) @
        [Elem ''td'' [] [Text (fmt (var m))],
         Elem ''td'' [] [Text (fmt (sd m))],
         Elem ''td'' [] [Text (code m)],
         Elem ''td'' [] [Text (explain (code m))],
         Elem ''td'' []
           [Text (case comment m of None \<Rightarrow> [160] | Some c \<Rightarrow> if c = [] then [160] else c)]])"

text \<open>
  The block of one operation: caption, table and chart. \<open>resolve\<close> stands for
  \<open>p \<mapsto> new URL(p, import.meta.url).href\<close>, which depends on where the module is served.
\<close>

definition operation_block :: "(js_string \<Rightarrow> js_string) \<Rightarrow> js_string \<times> OperationInfo \<Rightarrow> node list" where
  "operation_block resolve entry =
     (let op = fst entry; info = snd entry in
      [Elem ''div'' [(''className'', Str CLS_caption)] [Text text_operation, Text op],
       Elem ''table'' [(''className'', Str CLS_table)]
         [table_head,
          Elem ''tbody'' [] (map (\<lambda>(idx, m). table_row idx m) (enumerate 0 (models info)))],
       Elem ''p'' [(''style'', Style [(''width'', js ''70%''), (''margin'', js ''0 auto'')])]
         [Elem ''img''
            [(''className'', Str CLS_img),
             (''src'', Str (resolve (js ''./assets/'' @ image_file info))),
             (''alt'', Str (text_chart @ op))] []]])"

definition RegressionReport :: "(js_string \<Rightarrow> js_string) \<Rightarrow> ReportData \<Rightarrow> node list" where
  "RegressionReport resolve reportData =
     [Elem ''button'' [(''onClick'', OnClick)] [Text (js ''Download PDF'')],
      Elem ''div'' [(''className'', Str CLS_body), (''ref'', Ref)]
        ([Elem ''h1'' [(''className'', Str CLS_h1)] [Text text_title]] @ Intro @
         concat (map (operation_block resolve) (Object_entries reportData)))]"

subsection \<open>Reading the tree\<close>

fun nodes :: "node \<Rightarrow> node list" where
  "nodes (Elem t ps cs) = Elem t ps cs # concat (map nodes cs)"
| "nodes n = [n]"

fun has_tag :: "string \<Rightarrow> node \<Rightarrow> bool" where
  "has_tag t (Elem t' ps cs) = (t' = t)"
| "has_tag t n = False"

fun children :: "node \<Rightarrow> node list" where
  "children (Elem t ps cs) = cs"
| "children n = []"

fun props :: "node \<Rightarrow> (string \<times> prop_value) list" where
  "props (Elem t ps cs) = ps"
| "props n = []"

text \<open>All elements with a tag, in document order.\<close>

definition elements :: "string \<Rightarrow> node list \<Rightarrow> node list" where
  "elements t ns = filter (has_tag t) (concat (map nodes ns))"

definition has_class :: "js_string \<Rightarrow> node \<Rightarrow> bool" where
  "has_class c n = (map_of (props n) ''className'' = Some (Str c))"

text \<open>The body rows of a table; the cells and the styling of a row.\<close>

definition body_rows :: "node \<Rightarrow> node list" where
  "body_rows table = concat (map children (elements ''tbody'' [table]))"

definition row_shape :: "node \<Rightarrow> nat \<times> bool" where
  "row_shape row = (length (filter (has_tag ''td'') (children row)), has_class CLS_tbodyEven row)"

definition table_shapes :: "node list \<Rightarrow> (nat \<times> bool) list list" where
  "table_shapes out = map (\<lambda>t. map row_shape (body_rows t)) (elements ''table'' out)"

text \<open>The operation names of the captions, and the charts, in document order.\<close>

definition caption_ops :: "node list \<Rightarrow> js_string list" where
  "caption_ops out =
     map (\<lambda>n. case children n of [Text a, Text op] \<Rightarrow> op | _ \<Rightarrow> [])
       (filter (has_class CLS_caption) (elements ''div'' out))"

definition chart_props :: "node list \<Rightarrow> (prop_value option \<times> prop_value option) list" where
  "chart_props out =
     map (\<lambda>n. (map_of (props n) ''src'', map_of (props n) ''alt'')) (elements ''img'' out)"


text \<open>The caption and the table that \<open>operation_block\<close> builds for an entry.\<close>

definition the_caption :: "js_string \<times> OperationInfo \<Rightarrow> node" where
  "the_caption entry =
     Elem ''div'' [(''className'', Str CLS_caption)] [Text text_operation, Text (fst entry)]"

definition the_table :: "js_string \<times> OperationInfo \<Rightarrow> node" where
  "the_table entry =
     Elem ''table'' [(''className'', Str CLS_table)]
       [table_head,
        Elem ''tbody'' []
          (map (\<lambda>(idx, m). table_row idx m) (enumerate 0 (models (snd entry))))]"


text \<open>A model and an operation to run the report on.\<close>

definition example_model :: Model where
  "example_model = \<lparr>degree = 1, coef = [3 / 2, 1 / 4], var = 1 / 4, sd = 1 / 2,
     code = js ''+-'', comment = None\<rparr>"

definition example_info :: OperationInfo where
  "example_info = \<lparr>models = [example_model, example_model], image_file = js ''chart.png''\<rparr>"


section \<open>The export action\<close>

text \<open>
  \<^verbatim>\<open>
  const downloadPdf = async () => {
    const el  = reportRef.current!;
    const opt = {
      margin:      [10, 10, 10, 10],
      filename:    'regression.pdf',
      image:       { type: 'jpeg', quality: 0.98 },
      html2canvas: { scale: 1, width: el.scrollWidth },
      jsPDF:       { unit: 'mm', format: 'a4', orientation: 'portrait' },
      pagebreak:   { mode: ['avoid-all', 'css'], avoid: ['.rep-table', '.rep-img'] },
    } as const;
    import('html2pdf.js').then(pdf => pdf.default().set(opt).from(el).save());
  };
  \<close>
  The DOM element of the report is the element that carries \<open>ref={reportRef}\<close>, with the
  scroll width the layout gave it.
\<close>

record dom_element =
  element :: node
  scrollWidth :: number

record pdf_options =
  margin :: "number list"
  filename :: js_string
  image_type :: js_string
  image_quality :: number
  html2canvas_scale :: number
  html2canvas_width :: number
  jsPDF_unit :: js_string
  jsPDF_format :: js_string
  jsPDF_orientation :: js_string
  pagebreak_mode :: "js_string list"
  pagebreak_avoid :: "js_string list"

definition opt :: "dom_element \<Rightarrow> pdf_options" where
  "opt el =
     \<lparr>margin = [10, 10, 10, 10],
      filename = js ''regression.pdf'',
      image_type = js ''jpeg'',
      image_quality = round_double (98 / 100),
      html2canvas_scale = 1,
      html2canvas_width = scrollWidth el,
      jsPDF_unit = js ''mm'',
      jsPDF_format = js ''a4'',
      jsPDF_orientation = js ''portrait'',
      pagebreak_mode = [js ''avoid-all'', js ''css''],
      pagebreak_avoid = [js ''.rep-table'', js ''.rep-img'']\<rparr>"

text \<open>
  The conversion library is outside the repository. What the action needs of it: the
  dynamic import either gives the module or is rejected with a reason, and
  \<open>set(opt).from(el).save()\<close> either saves the file or is rejected with a reason.
\<close>

record 'e html2pdf =
  import_module :: "'e option"
  save :: "pdf_options \<Rightarrow> dom_element \<Rightarrow> 'e option"

text \<open>
  The reason of a rejection nobody handles: the \<open>TypeError\<close> of reading \<open>scrollWidth\<close> of
  \<open>null\<close> when the ref is not attached, or what the library was rejected with.
\<close>

datatype 'e reason = TypeError | Thrown 'e

text \<open>
  One run of the action: the conversions it started, and the rejection left unhandled if
  there is one. The promise of \<open>import(...).then(...)\<close> is neither awaited nor returned
  and has no \<open>catch\<close>; the promise of the \<open>async\<close> function goes to the click handler,
  which drops it.
\<close>

record 'e export_run =
  conversions :: "(pdf_options \<times> dom_element) list"
  unhandled :: "'e reason option"

definition downloadPdf :: "'e html2pdf \<Rightarrow> dom_element option \<Rightarrow> 'e export_run" where
  "downloadPdf lib current =
     (case current of
        None \<Rightarrow> \<lparr>conversions = [], unhandled = Some TypeError\<rparr>
      | Some el \<Rightarrow>
          (case import_module lib of
             Some e \<Rightarrow> \<lparr>conversions = [], unhandled = Some (Thrown e)\<rparr>
           | None \<Rightarrow>
               \<lparr>conversions = [(opt el, el)],
                unhandled = map_option Thrown (save lib (opt el) el)\<rparr>))"

text \<open>
  \<open>reportRef.current\<close> once the report is rendered: the first node, in document order,
  with the \<open>ref\<close> prop (the source attaches the ref to one element).
\<close>

definition has_ref :: "node \<Rightarrow> bool" where
  "has_ref n = (map_of (props n) ''ref'' = Some Ref)"

definition reportRef_current ::
    "(js_string \<Rightarrow> js_string) \<Rightarrow> ReportData \<Rightarrow> number \<Rightarrow> dom_element option" where
  "reportRef_current resolve reportData w =
     map_option (\<lambda>n. \<lparr>element = n, scrollWidth = w\<rparr>)
       (find has_ref (concat (map nodes (RegressionReport resolve reportData))))"


text \<open>
  Two libraries to run the action against: one whose import is rejected with the reason
  3, and one that loads and whose conversion is rejected with the reason 7.
\<close>

definition import_rejected :: "nat html2pdf" where
  "import_rejected = \<lparr>import_module = Some 3, save = (\<lambda>options target. None)\<rparr>"

definition conversion_rejected :: "nat html2pdf" where
  "conversion_rejected = \<lparr>import_module = None, save = (\<lambda>options target. Some 7)\<rparr>"

section \<open>Properties of \<open>explain\<close>\<close>

lemma js_star: "js ''*'' = [42]"
  by (simp add: js_def)

lemma js_plus: "js ''+'' = [43]"
  by (simp add: js_def)

lemma js_comma: "js '', '' = [44, 32]"
  by (simp add: js_def)

lemma startsWith_star: "startsWith cd [42] = (case cd of [] \<Rightarrow> False | c # cs \<Rightarrow> c = 42)"
  by (cases cd) (simp_all add: startsWith_def)

lemma char_at_plus:
  "(char_at s i = Some [43]) = (case drop i s of [] \<Rightarrow> False | c # cs \<Rightarrow> c = 43)"
proof (cases "i < length s")
  case True
  then obtain c cs where d: "drop i s = c # cs"
    by (cases "drop i s") simp_all
  from True d have "s ! i = c"
    by (metis Cons_nth_drop_Suc list.inject)
  with True d show ?thesis by (simp add: char_at_def)
next
  case False
  then show ?thesis by (simp add: char_at_def)
qed

lemma explain_phrases: "explain cd = join (spec_phrases cd) [44, 32]"
proof (cases cd)
  case Nil
  then show ?thesis
    by (simp add: explain_def spec_phrases_def spec_flag_def spec_rest_def spec_level_def
        js_star js_plus js_comma startsWith_star char_at_plus push_def slice_def)
next
  case (Cons c cs)
  then show ?thesis
    by (cases "drop 1 cs"; cases cs)
      (auto simp add: explain_def spec_phrases_def spec_flag_def spec_rest_def spec_level_def
        js_star js_plus js_comma startsWith_star char_at_plus push_def slice_def
        split: list.splits)
qed

lemma valid_code_cases:
  "valid_code cd \<Longrightarrow>
     cd \<in> {[43, 43], [43, 45], [45, 43], [45, 45],
             [42, 43, 43], [42, 43, 45], [42, 45, 43], [42, 45, 45]}"
  by (cases cd rule: valid_code.cases) (auto simp add: plus_or_minus_def)

lemma split_join_pair:
  "a \<in> {phrase_sig05, phrase_not05} \<Longrightarrow> b \<in> {phrase_sig01, phrase_not01} \<Longrightarrow>
     split (join [a, b] [44, 32]) [44, 32] = [a, b]"
  by (auto simp add: split_def startsWith_def phrase_sig05_def phrase_not05_def
      phrase_sig01_def phrase_not01_def)

lemma split_join_triple:
  "a \<in> {phrase_sig05, phrase_not05} \<Longrightarrow> b \<in> {phrase_sig01, phrase_not01} \<Longrightarrow>
     split (join [phrase_neg, a, b] [44, 32]) [44, 32] = [phrase_neg, a, b]"
  by (auto simp add: split_def startsWith_def phrase_sig05_def phrase_not05_def
      phrase_sig01_def phrase_not01_def phrase_neg_def)

lemma spec_phrases_valid:
  "valid_code cd \<Longrightarrow>
     (\<exists>a b. a \<in> {phrase_sig05, phrase_not05} \<and> b \<in> {phrase_sig01, phrase_not01} \<and>
        spec_phrases cd = (if startsWith cd [42] then [phrase_neg, a, b] else [a, b]))"
  by (drule valid_code_cases)
    (auto simp add: spec_phrases_def spec_flag_def spec_rest_def spec_level_def startsWith_def)

text \<open>
  C1, as the code has it. The three example codes give the Russian sentences of the
  source, code unit for code unit: \<open>explain("++")\<close> is "znachimo luchshe pri \<open>\<alpha>\<close>=0.05,
  znachimo luchshe pri \<open>\<alpha>\<close>=0.01", \<open>explain("+-")\<close> is "znachimo luchshe pri \<open>\<alpha>\<close>=0.05, ne
  luchshe pri \<open>\<alpha>\<close>=0.01" and \<open>explain("*-+")\<close> is "starshiy koeffitsient < 0, ne luchshe pri
  \<open>\<alpha>\<close>=0.05, znachimo luchshe pri \<open>\<alpha>\<close>=0.01". The spec's English sentences are translations
  of these.
\<close>

theorem explain_examples:
  "explain (js ''++'') = phrase_sig05 @ js '', '' @ phrase_sig01 \<and>
   explain (js ''+-'') = phrase_sig05 @ js '', '' @ phrase_not01 \<and>
   explain (js ''*-+'') = phrase_neg @ js '', '' @ phrase_not05 @ js '', '' @ phrase_sig01"
  by (simp add: explain_phrases spec_phrases_def spec_flag_def spec_rest_def spec_level_def
      js_def)

text \<open>
  C1, as the spec states it, fails: none of the three results is the English sentence
  of the spec.
\<close>

theorem explain_examples_not_english:
  "explain (js ''++'') \<noteq> english_sig ''0.05'' @ js '', '' @ english_sig ''0.01'' \<and>
   explain (js ''+-'') \<noteq> english_sig ''0.05'' @ js '', '' @ english_not ''0.01'' \<and>
   explain (js ''*-+'') \<noteq>
     english_neg @ js '', '' @ english_not ''0.05'' @ js '', '' @ english_sig ''0.01''"
  by (simp add: explain_phrases spec_phrases_def spec_flag_def spec_rest_def spec_level_def
      js_def english_sig_def english_not_def english_neg_def
      phrase_sig05_def phrase_not05_def phrase_neg_def)

text \<open>
  C5. For a code matching \<open>[*]?[+-][+-]\<close>, \<open>explain\<close> returns the phrases the spec
  prescribes (\<open>spec_phrases\<close>: the flag phrase first when the code begins with \<open>*\<close>, which
  is then consumed; the \<open>\<alpha>=0.05\<close> phrase by the first remaining character; the \<open>\<alpha>=0.01\<close>
  phrase by the second), joined with ", " in that order. Splitting the result at ", "
  gives these phrases back: three parts when the code starts with \<open>*\<close>, two otherwise.
\<close>

theorem explain_valid_code:
  assumes "valid_code cd"
  shows "explain cd = join (spec_phrases cd) (js '', '') \<and>
         split (explain cd) (js '', '') = spec_phrases cd \<and>
         length (split (explain cd) (js '', '')) = (if startsWith cd (js ''*'') then 3 else 2) \<and>
         (startsWith cd (js ''*'') = (hd (spec_phrases cd) = phrase_neg))"
proof -
  from spec_phrases_valid [OF assms] obtain a b where
    a: "a \<in> {phrase_sig05, phrase_not05}" and b: "b \<in> {phrase_sig01, phrase_not01}" and
    ph: "spec_phrases cd = (if startsWith cd [42] then [phrase_neg, a, b] else [a, b])"
    by blast
  have j: "explain cd = join (spec_phrases cd) [44, 32]"
    by (rule explain_phrases)
  have s: "split (explain cd) [44, 32] = spec_phrases cd"
    using split_join_pair [OF a b] split_join_triple [OF a b] by (simp add: j ph)
  have n: "a \<noteq> phrase_neg"
    using a by (auto simp add: phrase_sig05_def phrase_not05_def phrase_neg_def)
  show ?thesis
    using j s n by (simp add: js_star js_comma ph)
qed

theorem explain_valid_code_witness:
  "valid_code (js ''*-+'') \<and>
   split (explain (js ''*-+'')) (js '', '') = [phrase_neg, phrase_not05, phrase_sig01] \<and>
   length (split (explain (js ''*-+'')) (js '', '')) = 3"
proof -
  have v: "valid_code (js ''*-+'')"
    by (simp add: js_def plus_or_minus_def)
  have p: "spec_phrases (js ''*-+'') = [phrase_neg, phrase_not05, phrase_sig01]"
    by (simp add: js_def spec_phrases_def spec_flag_def spec_rest_def spec_level_def)
  have s: "split (explain (js ''*-+'')) (js '', '') = spec_phrases (js ''*-+'')"
    using explain_valid_code [OF v] by (rule conjunct1 [OF conjunct2])
  show ?thesis
    using v by (simp only: s p) simp
qed

text \<open>
  C9. \<open>explain\<close> is defined on every string: nothing in its body can throw, and the result
  is that of the well-formed code \<open>canon_code code\<close>, in which every significance position
  holding no character, or a character other than \<open>+\<close>, reads \<open>-\<close>. So the empty string
  and a lone \<open>*\<close> give "not better" at both levels, and \<open>+\<close> alone gives "not better" at
  \<open>\<alpha>=0.01\<close>.
\<close>

theorem explain_total:
  "explain cd = explain (canon_code cd) \<and> valid_code (canon_code cd) \<and>
   explain cd = join (spec_phrases cd) (js '', '') \<and>
   explain [] = phrase_not05 @ js '', '' @ phrase_not01 \<and>
   explain (js ''*'') = phrase_neg @ js '', '' @ phrase_not05 @ js '', '' @ phrase_not01 \<and>
   explain (js ''+'') = phrase_sig05 @ js '', '' @ phrase_not01 \<and>
   explain (js ''x+'') = phrase_not05 @ js '', '' @ phrase_sig01"
proof -
  have c: "spec_phrases (canon_code cd) = spec_phrases cd"
    by (cases cd; cases "drop 1 cd"; cases "drop 2 cd")
      (auto simp add: spec_phrases_def spec_flag_def spec_rest_def spec_level_def
        canon_code_def sig_char_def split: list.splits)
  have v: "valid_code (canon_code cd)"
    by (cases cd) (auto simp add: canon_code_def sig_char_def plus_or_minus_def
        split: list.splits)
  have e: "explain [] = phrase_not05 @ js '', '' @ phrase_not01 \<and>
      explain (js ''*'') = phrase_neg @ js '', '' @ phrase_not05 @ js '', '' @ phrase_not01 \<and>
      explain (js ''+'') = phrase_sig05 @ js '', '' @ phrase_not01 \<and>
      explain (js ''x+'') = phrase_not05 @ js '', '' @ phrase_sig01"
    by (simp add: explain_phrases spec_phrases_def spec_flag_def spec_rest_def
        spec_level_def js_def)
  show ?thesis
    using c v e by (simp add: explain_phrases js_comma)
qed

section \<open>Properties of \<open>fmt\<close>\<close>

subsection \<open>The rounding to a double\<close>

text \<open>
  \<open>ilog2\<close> is the binary exponent, and \<open>round_double\<close> of a positive real is a multiple
  \<open>m * u\<close> of the unit \<open>u\<close> in the last of 53 bits, with \<open>m\<close> at most \<open>2^53\<close>, that is no
  farther than half a unit from the real.
\<close>

lemma bitlen_bounds: "0 < n \<Longrightarrow> 2 ^ (bitlen n - 1) \<le> n \<and> n < 2 ^ bitlen n"
proof (induction n rule: bitlen.induct)
  case (1 n)
  show ?case
  proof (cases "n div 2 = 0")
    case True
    with 1 have "n = 1" by (simp add: div_eq_0_iff) 
    then show ?thesis by (simp add: bitlen.simps [of "Suc 0"] bitlen.simps [of 0])
  next
    case False
    with 1 have ih: "2 ^ (bitlen (n div 2) - 1) \<le> n div 2" "n div 2 < 2 ^ bitlen (n div 2)"
      by simp_all
    have b: "bitlen n = Suc (bitlen (n div 2))"
      using 1 by (simp add: bitlen.simps [of n])
    have p: "0 < bitlen (n div 2)"
      using False by (simp add: bitlen.simps [of "n div 2"])
    then have "(2 :: nat) ^ bitlen (n div 2) = 2 * 2 ^ (bitlen (n div 2) - 1)"
      by (cases "bitlen (n div 2)") simp_all
    moreover have "n = 2 * (n div 2) + n mod 2" "n mod 2 < 2"
      by simp_all
    ultimately show ?thesis
      using ih unfolding b by (simp del: div_mult_mod_eq mult_div_mod_eq) linarith
  qed
qed

lemma ilog2_bounds:
  assumes "0 < r"
  shows "pow2 (ilog2 r) \<le> r \<and> r < pow2 (ilog2 r + 1)"
proof (cases "1 \<le> r")
  case True
  define n where "n = nat \<lfloor>r\<rfloor>"
  have n: "0 < n" "of_nat n \<le> r" "r < of_nat n + 1"
    using True by (simp_all add: n_def) (linarith+)?
  from bitlen_bounds [OF n(1)] have h: "2 ^ (bitlen n - 1) \<le> n" "n + 1 \<le> 2 ^ bitlen n"
    by simp_all
  have hr: "(2 :: real) ^ (bitlen n - 1) \<le> of_nat n" "of_nat n + 1 \<le> (2 :: real) ^ bitlen n"
    using of_nat_mono [OF h(1), where ?'a = real] of_nat_mono [OF h(2), where ?'a = real]
    by simp_all
  have p: "0 < bitlen n" using n(1) by (simp add: bitlen.simps [of n])
  have "pow2 (ilog2 r) = 2 ^ (bitlen n - 1)" "pow2 (ilog2 r + 1) = 2 ^ bitlen n"
    using True p by (simp_all add: ilog2_def pow2_def n_def [symmetric] nat_diff_distrib')
  then show ?thesis
    using hr n by linarith
next
  case False
  define m where "m = nat (\<lceil>1 / r\<rceil> - 1)"
  have "1 < 1 / r" using assms False by simp
  then have c: "2 \<le> \<lceil>1 / r\<rceil>" by linarith
  then have m: "0 < m" "of_nat m < 1 / r" "1 / r \<le> of_nat m + 1"
    by (simp_all add: m_def) (linarith+)?
  from bitlen_bounds [OF m(1)] have h: "2 ^ (bitlen m - 1) \<le> m" "m + 1 \<le> 2 ^ bitlen m"
    by simp_all
  have hr: "(2 :: real) ^ (bitlen m - 1) \<le> of_nat m" "of_nat m + 1 \<le> (2 :: real) ^ bitlen m"
    using of_nat_mono [OF h(1), where ?'a = real] of_nat_mono [OF h(2), where ?'a = real]
    by simp_all
  have a: "(2 :: real) ^ (bitlen m - 1) < 1 / r" "1 / r \<le> (2 :: real) ^ bitlen m"
    using m hr by linarith+
  have p: "0 < bitlen m" using m(1) by (simp add: bitlen.simps [of m])
  from a(2) assms have lo: "1 / 2 ^ bitlen m \<le> r"
    by (simp add: field_simps)
  from a(1) assms have hi: "r < 1 / 2 ^ (bitlen m - 1)"
    by (simp add: field_simps)
  have "pow2 (- int (bitlen m)) = 1 / 2 ^ bitlen m"
    using p by (simp add: pow2_def)
  moreover have "pow2 (- int (bitlen m) + 1) = 1 / 2 ^ (bitlen m - 1)"
    using p by (cases "bitlen m") (simp_all add: pow2_def nat_diff_distrib')
  moreover have "ilog2 r = - int (bitlen m)"
    using False by (simp add: ilog2_def m_def [symmetric])
  ultimately show ?thesis
    using lo hi by simp
qed

lemma pow2_powi: "pow2 e = 2 powi e"
  by (simp add: pow2_def power_int_def field_simps)

lemma round_double_near:
  assumes "0 < r"
  defines "u \<equiv> pow2 (max (ilog2 r) (- 1022) - 52)"
  shows "\<exists>m :: int. round_double r = of_int m * u \<and> 0 \<le> m \<and> m \<le> 2 ^ 53 \<and>
           \<bar>round_double r - r\<bar> \<le> u / 2"
proof -
  define q where "q = \<lfloor>r / u\<rfloor>"
  define f where "f = r / u - of_int q"
  define m where "m = (if 1 / 2 < f \<or> (f = 1 / 2 \<and> odd q) then q + 1 else q)"
  have u: "0 < u" by (simp add: u_def pow2_powi)
  have rd: "round_double r = of_int m * u"
    using assms(1) by (simp add: round_double_def Let_def m_def f_def q_def u_def)
  have f: "0 \<le> f" "f < 1"
    unfolding f_def q_def by linarith+
  have q0: "0 \<le> q"
    using assms(1) u by (simp add: q_def)
  have "\<bar>of_int m - r / u\<bar> \<le> 1 / 2"
    using f by (auto simp add: m_def f_def)
  then have "\<bar>of_int m - r / u\<bar> * u \<le> 1 / 2 * u"
    using u by (intro mult_right_mono) simp_all
  moreover have "of_int m * u - r = (of_int m - r / u) * u"
    using u by (simp add: field_simps)
  then have "\<bar>of_int m * u - r\<bar> = \<bar>of_int m - r / u\<bar> * \<bar>u\<bar>"
    by (simp only: abs_mult)
  ultimately have near: "\<bar>of_int m * u - r\<bar> \<le> u / 2"
    using u by simp
  have "r < pow2 (ilog2 r + 1)"
    using ilog2_bounds [OF assms(1)] by simp
  also have "\<dots> \<le> pow2 (max (ilog2 r) (- 1022) + 1)"
    unfolding pow2_powi by (rule power_int_increasing) simp_all
  also have "\<dots> = 2 ^ 53 * u"
    by (simp add: u_def pow2_powi power_int_diff power_int_add)
  finally have "r / u < 2 ^ 53"
    using u by (simp add: field_simps)
  then have "q < 2 ^ 53"
    unfolding q_def by (simp add: floor_less_iff)
  then have m53: "m \<le> 2 ^ 53"
    by (simp add: m_def)
  have m0: "0 \<le> m"
    using q0 by (simp add: m_def)
  show ?thesis
    using rd m0 m53 near by (intro exI [of _ m]) simp
qed

subsection \<open>Evaluation\<close>

lemma replicate_numeral: "replicate (numeral k) x = x # replicate (pred_numeral k) x"
  by (simp add: numeral_eq_Suc)

lemmas round_defs = round_double_def ilog2_def pow2_def Let_def

lemmas eval_recs = bitlen.simps digits.simps digit_def js_def replicate_numeral

lemma lit_1e_12_value: "lit_1e_12 = 4951760157141521 / 2 ^ 92"
  unfolding lit_1e_12_def round_defs by (simp add: eval_recs)

lemma lit_1e_12_below: "lit_1e_12 < 1 / 10 ^ 12 \<and> 1 / 10 ^ 12 - lit_1e_12 < 1 / 2 ^ 93"
  by (simp add: lit_1e_12_value)

lemma lit_1e_13: "round_double (1 / 10 ^ 13) = 7922816251426434 / 2 ^ 96"
  unfolding round_defs by (simp add: eval_recs)

lemma lit_0_1: "round_double (1 / 10) = 3602879701896397 / 2 ^ 55"
  unfolding round_defs by (simp add: eval_recs)

lemma lit_1_5: "round_double (3 / 2) = 3 / 2"
  unfolding round_defs by (simp add: eval_recs)

lemma lit_minus_2: "round_double (- 2) = - 2"
  unfolding round_defs by (simp add: eval_recs)

lemma lit_1e_8: "round_double (1 / 10 ^ 8) = 3022314549036573 / 2 ^ 78"
  unfolding round_defs by (simp add: eval_recs)

lemma lit_minus_1e_8: "round_double (- (1 / 10 ^ 8)) = - (3022314549036573 / 2 ^ 78)"
  unfolding round_defs by (simp add: eval_recs)

lemma fmt_0_1: "fmt (round_double (1 / 10)) = js ''0.1''"
  unfolding lit_0_1 fmt_def toFixed_def Let_def lit_1e_12_value by (simp add: eval_recs)

lemma fmt_1_5: "fmt (round_double (3 / 2)) = js ''1.5''"
  unfolding lit_1_5 fmt_def toFixed_def Let_def lit_1e_12_value by (simp add: eval_recs)

lemma fmt_minus_2: "fmt (round_double (- 2)) = js ''-2''"
  unfolding lit_minus_2 fmt_def toFixed_def Let_def lit_1e_12_value by (simp add: eval_recs)

subsection \<open>The shape of the result\<close>

lemma digit_not_dot: "d < 10 \<Longrightarrow> digit d \<noteq> 46"
proof -
  assume "d < 10"
  then have "d \<in> {0, 1, 2, 3, 4, 5, 6, 7, 8, 9}" by auto
  then show ?thesis by (auto simp add: digit_def)
qed

lemma digits_no_dot: "46 \<notin> set (digits n)"
proof (induction n rule: digits.induct)
  case (1 n)
  show ?case
  proof (cases "n < 10")
    case True
    then show ?thesis by (simp add: digits.simps [of n] digit_not_dot)
  next
    case False
    with 1 have "46 \<notin> set (digits (n div 10))" by simp
    moreover have "digit (n mod 10) \<noteq> 46" by (rule digit_not_dot) simp
    ultimately show ?thesis using False by (simp add: digits.simps [of n])
  qed
qed

lemma digits_nonempty: "digits n \<noteq> []"
  by (simp add: digits.simps [of n])

lemma zeros_iff: "zeros s = (s \<noteq> [] \<and> list_all (\<lambda>c. c = 48) s)"
  by (induction s rule: zeros.induct) auto

lemma zeros_no_dot: "zeros s \<Longrightarrow> 46 \<notin> set s"
  by (auto simp add: zeros_iff list_all_iff)

lemma zeros_Cons: "zeros s \<Longrightarrow> zeros (48 # s)"
  by (simp add: zeros_iff)

lemma tail_match_no_dot: "tail_match s \<Longrightarrow> 46 \<notin> set s \<Longrightarrow> zeros s"
  by (cases s) auto

lemma tail_match_tl: "tail_match s \<Longrightarrow> c \<in> set (tl s) \<Longrightarrow> c = 48"
  by (cases s) (auto simp add: zeros_iff list_all_iff)

lemma replace_trailing_prefix:
  "\<exists>m. t = replace_trailing t @ m \<and> (m = [] \<or> tail_match m)"
proof (induction t)
  case Nil
  show ?case by simp
next
  case (Cons c cs)
  show ?case
  proof (cases "tail_match (c # cs)")
    case True
    then show ?thesis by auto
  next
    case False
    from Cons obtain m where "cs = replace_trailing cs @ m" "m = [] \<or> tail_match m"
      by blast
    with False show ?thesis by auto
  qed
qed

lemma replace_trailing_leftmost:
  "t = p @ q \<Longrightarrow> tail_match q \<Longrightarrow> length (replace_trailing t) \<le> length p"
proof (induction t arbitrary: p)
  case Nil
  then show ?case by simp
next
  case (Cons c cs)
  show ?case
  proof (cases "tail_match (c # cs)")
    case True
    then show ?thesis by simp
  next
    case False
    with Cons.prems obtain p' where p: "p = c # p'" "cs = p' @ q"
      by (cases p) auto
    from Cons.IH [OF p(2) Cons.prems(2)] False p show ?thesis by simp
  qed
qed

lemma dots_two: "46 \<in> set r \<Longrightarrow> 46 \<in> set m \<Longrightarrow> 2 \<le> dots (r @ m)"
proof -
  assume r: "46 \<in> set r" and m: "46 \<in> set m"
  have "filter (\<lambda>c. c = 46) r \<noteq> []" using r by (simp add: filter_empty_conv)
  then have a: "1 \<le> length (filter (\<lambda>c. c = 46) r)"
    by (cases "filter (\<lambda>c. c = 46) r") simp_all
  have "filter (\<lambda>c. c = 46) m \<noteq> []" using m by (simp add: filter_empty_conv)
  then have b: "1 \<le> length (filter (\<lambda>c. c = 46) m)"
    by (cases "filter (\<lambda>c. c = 46) m") simp_all
  from a b show ?thesis unfolding dots_def filter_append length_append by linarith
qed

lemma replace_trailing_shape:
  assumes d: "dots t \<le> 1" and ne: "t \<noteq> []" and l: "last t \<noteq> 46" and nm: "\<not> tail_match t"
  shows "replace_trailing t \<noteq> [] \<and> last (replace_trailing t) \<noteq> 46 \<and>
         (46 \<in> set (replace_trailing t) \<longrightarrow> last (replace_trailing t) \<noteq> 48)"
proof -
  define r where "r = replace_trailing t"
  obtain m where t: "t = r @ m" and m: "m = [] \<or> tail_match m"
    using replace_trailing_prefix [of t] r_def by blast
  have rne: "r \<noteq> []"
    using ne nm by (cases t) (simp_all add: r_def)
  have left: "\<And>p q. t = p @ q \<Longrightarrow> tail_match q \<Longrightarrow> length r \<le> length p"
    unfolding r_def by (rule replace_trailing_leftmost)
  have zm: "46 \<in> set r \<Longrightarrow> m \<noteq> [] \<Longrightarrow> zeros m"
  proof -
    assume a: "46 \<in> set r" "m \<noteq> []"
    have "46 \<notin> set m" using dots_two [of r m] a d t by auto
    with m a show "zeros m" by (auto intro: tail_match_no_dot)
  qed
  have a: "last r \<noteq> 46"
  proof
    assume e: "last r = 46"
    with rne have r: "r = butlast r @ [46]" by (metis append_butlast_last_id)
    then have in_r: "46 \<in> set r" by (metis in_set_conv_decomp)
    show False
    proof (cases "m = []")
      case True
      with t e l show False by simp
    next
      case False
      from zm [OF in_r False] have "tail_match (46 # m)" by simp
      moreover have "t = butlast r @ (46 # m)" using t r by (metis append.assoc append_Cons append_Nil)
      ultimately have "length r \<le> length (butlast r)" by (rule left [rotated])
      moreover have "length (butlast r) < length r" using rne by simp
      ultimately show False by linarith
    qed
  qed
  have b: "46 \<in> set r \<longrightarrow> last r \<noteq> 48"
  proof (intro impI notI)
    assume in_r: "46 \<in> set r" and e: "last r = 48"
    with rne have r: "r = butlast r @ [48]" by (metis append_butlast_last_id)
    have "tail_match (48 # m)"
    proof (cases "m = []")
      case True
      then show ?thesis by simp
    next
      case False
      from zeros_Cons [OF zm [OF in_r False]] show ?thesis by (cases m) auto
    qed
    moreover have "t = butlast r @ (48 # m)" using t r by (metis append.assoc append_Cons append_Nil)
    ultimately have "length r \<le> length (butlast r)" by (rule left [rotated])
    moreover have "length (butlast r) < length r" using rne by simp
      ultimately show False by linarith
  qed
  show ?thesis using rne a b by (simp add: r_def)
qed

lemma js_minus: "js ''-'' = [45]" by (simp add: js_def)
lemma js_dot: "js ''.'' = [46]" by (simp add: js_def)
lemma js_exp: "js ''e+'' = [101, 43]" by (simp add: js_def)
lemma js_zero: "js ''0'' = [48]" by (simp add: js_def)

lemma no_dot_filter: "46 \<notin> set u \<Longrightarrow> filter (\<lambda>c. c = 46) u = []"
  by (auto simp add: filter_empty_conv)

lemma shape_with_dot:
  assumes u: "46 \<notin> set u" "u \<noteq> []" and v: "46 \<notin> set v" "v \<noteq> []"
    and s: "s = [] \<or> s = [45]" and t: "t = s @ u @ [46] @ v"
  shows "dots t \<le> 1 \<and> t \<noteq> [] \<and> last t \<noteq> 46 \<and> \<not> tail_match t"
proof -
  have d: "dots t \<le> 1"
    using u v s t by (auto simp add: dots_def no_dot_filter)
  have l: "last t \<noteq> 46"
    using v t by (metis append_is_Nil_conv last_appendR last_in_set not_Cons_self2)
  have "46 \<in> set (tl t)"
    using u s t by (cases u) auto
  then have "\<not> tail_match t"
    using tail_match_tl [of t 46] by auto
  with d l t show ?thesis by simp
qed

lemma shape_without_dot:
  assumes w: "46 \<notin> set w" and c: "c \<in> set (tl w)" "c \<noteq> 48"
    and s: "s = [] \<or> s = [45]" and t: "t = s @ w"
  shows "dots t \<le> 1 \<and> t \<noteq> [] \<and> last t \<noteq> 46 \<and> \<not> tail_match t"
proof -
  have wne: "w \<noteq> []" using c by auto
  have d: "dots t \<le> 1"
    using w s t by (auto simp add: dots_def no_dot_filter)
  have l: "last t \<noteq> 46"
    using w wne t by (metis last_appendR last_in_set)
  have "c \<in> set (tl t)"
    using c s t wne by (cases w) auto
  then have "\<not> tail_match t"
    using tail_match_tl [of t c] c by auto
  with d l t wne show ?thesis by simp
qed

lemma exp_string_shape:
  "\<exists>u v. (exp_string sn = u @ [46] @ v \<and> 46 \<notin> set u \<and> u \<noteq> [] \<and> 46 \<notin> set v \<and> v \<noteq> []) \<or>
     (46 \<notin> set (exp_string sn) \<and> 101 \<in> set (tl (exp_string sn)))"
proof -
  define d where "d = digits (fst sn)"
  define e where "e = digits (snd sn - 1)"
  have dn: "46 \<notin> set d" "d \<noteq> []" and en: "46 \<notin> set e"
    by (simp_all add: d_def e_def digits_no_dot digits_nonempty)
  show ?thesis
  proof (cases "length d = 1")
    case True
    then have "exp_string sn = d @ [101, 43] @ e"
      by (simp add: exp_string_def d_def e_def js_exp Let_def)
    moreover have "101 \<in> set (tl (d @ [101, 43] @ e))"
      using dn by (cases d) auto
    ultimately show ?thesis using dn en by auto
  next
    case False
    then have x: "exp_string sn = take 1 d @ [46] @ (drop 1 d @ [101, 43] @ e)"
      by (simp add: exp_string_def d_def e_def js_exp js_dot Let_def)
    have "46 \<notin> set (take 1 d)" "46 \<notin> set (drop 1 d)"
      using dn by (auto dest: in_set_takeD in_set_dropD)
    moreover have "take 1 d \<noteq> []" using dn by (cases d) auto
    ultimately show ?thesis using x en by (intro exI [of _ "take 1 d"] exI [of _ "drop 1 d @ [101, 43] @ e"]) auto
  qed
qed

lemma toFixed_shape:
  "dots (toFixed x 6) \<le> 1 \<and> toFixed x 6 \<noteq> [] \<and> last (toFixed x 6) \<noteq> 46 \<and>
   \<not> tail_match (toFixed x 6)"
proof -
  define s where "s = (if x < 0 then js ''-'' else [])"
  have s: "s = [] \<or> s = [45]" by (simp add: s_def js_minus)
  show ?thesis
  proof (cases "10 ^ 21 \<le> \<bar>x\<bar>")
    case True
    then have t: "toFixed x 6 = s @ toString_large \<bar>x\<bar>"
      by (simp add: toFixed_def s_def Let_def)
    from exp_string_shape [of "shortest \<bar>x\<bar> (length (digits (nat \<lfloor>\<bar>x\<bar>\<rfloor>))) 1"]
    obtain u v where
      "(toString_large \<bar>x\<bar> = u @ [46] @ v \<and> 46 \<notin> set u \<and> u \<noteq> [] \<and> 46 \<notin> set v \<and> v \<noteq> []) \<or>
       (46 \<notin> set (toString_large \<bar>x\<bar>) \<and> 101 \<in> set (tl (toString_large \<bar>x\<bar>)))"
      unfolding toString_large_def by blast
    then show ?thesis
    proof
      assume a: "toString_large \<bar>x\<bar> = u @ [46] @ v \<and> 46 \<notin> set u \<and> u \<noteq> [] \<and> 46 \<notin> set v \<and> v \<noteq> []"
      show ?thesis
        by (rule shape_with_dot [of u v s]) (use a s t in simp_all)
    next
      assume a: "46 \<notin> set (toString_large \<bar>x\<bar>) \<and> 101 \<in> set (tl (toString_large \<bar>x\<bar>))"
      show ?thesis
        by (rule shape_without_dot [of "toString_large \<bar>x\<bar>" 101 s]) (use a s t in simp_all)
    qed
  next
    case False
    define m where "m = digits (nat \<lfloor>\<bar>x\<bar> * 10 ^ 6 + 1 / 2\<rfloor>)"
    define k where "k = length m"
    define m' where "m' = (if k \<le> 6 then replicate (6 + 1 - k) 48 @ m else m)"
    define k' where "k' = (if k \<le> 6 then 6 + 1 else k)"
    have t: "toFixed x 6 = s @ take (k' - 6) m' @ [46] @ drop (k' - 6) m'"
      using False by (simp add: toFixed_def s_def Let_def m_def k_def m'_def k'_def js_dot)
    have len: "length m' = k'" "7 \<le> k'"
      by (auto simp add: m'_def k'_def k_def)
    have nd: "46 \<notin> set m'"
      by (auto simp add: m'_def m_def digits_no_dot)
    have "46 \<notin> set (take (k' - 6) m')" "46 \<notin> set (drop (k' - 6) m')"
      using nd by (auto dest: in_set_takeD in_set_dropD)
    moreover have "take (k' - 6) m' \<noteq> []" "drop (k' - 6) m' \<noteq> []"
      using len by auto
    ultimately show ?thesis
      using s t by (intro shape_with_dot [of "take (k' - 6) m'" "drop (k' - 6) m'" s]) simp_all
  qed
qed

lemma fmt_shape:
  "fmt x \<noteq> [] \<and> last (fmt x) \<noteq> 46 \<and> (46 \<in> set (fmt x) \<longrightarrow> last (fmt x) \<noteq> 48)"
proof (cases "\<bar>x\<bar> < lit_1e_12")
  case True
  then show ?thesis by (simp add: fmt_def js_zero)
next
  case False
  then have "fmt x = replace_trailing (toFixed x 6)" by (simp add: fmt_def)
  with replace_trailing_shape [of "toFixed x 6"] toFixed_shape [of x] show ?thesis by simp
qed

lemma fmt_small:
  assumes "lit_1e_12 \<le> \<bar>x\<bar>" and "\<bar>x\<bar> < 1 / 2000000"
  shows "fmt x = (if x < 0 then js ''-0'' else js ''0'')"
proof -
  have "\<bar>x\<bar> * 10 ^ 6 + 1 / 2 < 1" using assms(2) by simp
  then have "\<lfloor>\<bar>x\<bar> * 10 ^ 6 + 1 / 2\<rfloor> \<le> 0" by (simp add: floor_less_iff [symmetric] )
  then have n: "nat \<lfloor>\<bar>x\<bar> * 10 ^ 6 + 1 / 2\<rfloor> = 0" by simp
  have "\<not> 10 ^ 21 \<le> \<bar>x\<bar>" using assms(2) by simp
  then have "toFixed x 6 = (if x < 0 then js ''-'' else []) @ js ''0.000000''"
    unfolding toFixed_def Let_def n by (simp add: eval_recs)
  then show ?thesis
    using assms(1) by (simp add: fmt_def js_def)
qed

text \<open>
  The threshold itself is not below the threshold: the double \<open>-1e-12\<close> renders as
  \<open>"-0"\<close>, the double \<open>1e-12\<close> as \<open>"0"\<close>.
\<close>

lemma fmt_at_threshold: "fmt (- lit_1e_12) = js ''-0''" "fmt lit_1e_12 = js ''0''"
proof -
  have p: "0 < lit_1e_12" "lit_1e_12 < 1 / 2000000"
    by (simp_all add: lit_1e_12_value)
  show "fmt (- lit_1e_12) = js ''-0''"
    using fmt_small [of "- lit_1e_12"] p by simp
  show "fmt lit_1e_12 = js ''0''"
    using fmt_small [of lit_1e_12] p by simp
qed

subsection \<open>A number of magnitude \<open>10^21\<close> or more\<close>

lemma lit_1e30: "round_double (10 ^ 30) = 1000000000000000019884624838656"
  unfolding round_defs by (simp add: eval_recs)

lemma digits_1e30: "length (digits (nat \<lfloor>1000000000000000019884624838656 :: real\<rfloor>)) = 31"
  by (simp add: eval_recs)

lemma candidates_1e30_a: "candidates 1000000000000000019884624838656 (Suc 0) 31 = [(1, 31)]"
  unfolding candidates_def rounds_to_def round_defs by (simp add: eval_recs)

lemma candidates_1e30_b: "candidates 1000000000000000019884624838656 (Suc 0) 32 = []"
  unfolding candidates_def rounds_to_def round_defs by (simp add: eval_recs)

lemma shortest_1e30: "shortest 1000000000000000019884624838656 31 (Suc 0) = (1, 31)"
  by (subst shortest.simps) (simp add: candidates_1e30_a candidates_1e30_b)

lemma toString_1e30: "toString_large 1000000000000000019884624838656 = js ''1e+30''"
  unfolding toString_large_def digits_1e30 exp_string_def Let_def
  by (simp add: shortest_1e30 eval_recs)

lemma toFixed_1e30: "toFixed 1000000000000000019884624838656 6 = js ''1e+30''"
  unfolding toFixed_def Let_def by (simp add: toString_1e30)

lemma fmt_1e30: "fmt 1000000000000000019884624838656 = js ''1e+3''"
  unfolding fmt_def toFixed_1e30 lit_1e_12_value by (simp add: js_def)

lemmas value_defs = decimal_value_def unsigned_value_def int_part_def after_int_def
  has_point_def frac_part_def after_frac_def has_exp_def exp_part_def after_exp_def

lemma value_1e3: "decimal_value (js ''1e+3'') = Some 1000"
  unfolding value_defs Let_def
  by (simp add: js_def startsWith_def is_digit_def digits_value_def)

subsection \<open>The round trip of the fixed-point notation\<close>

text \<open>
  Below \<open>10^21\<close> the result of \<open>fmt\<close> is a decimal numeral whose value is the number
  rounded to six decimals, so it is within \<open>0.0000005\<close> of the number.
\<close>

lemma digit_cases: "d < 10 \<Longrightarrow> d \<in> {0, 1, 2, 3, 4, 5, 6, 7, 8, 9 :: nat}"
  by auto

lemma is_digit_digit: "d < 10 \<Longrightarrow> is_digit (digit d)"
  by (drule digit_cases) (auto simp add: digit_def is_digit_def)

lemma unat_digit: "d < 10 \<Longrightarrow> unat (digit d) - 48 = d"
  by (drule digit_cases) (auto simp add: digit_def)

lemma digits_all_digit: "list_all is_digit (digits n)"
proof (induction n rule: digits.induct)
  case (1 n)
  show ?case
  proof (cases "n < 10")
    case True
    then show ?thesis by (simp add: digits.simps [of n] is_digit_digit)
  next
    case False
    with 1 have "list_all is_digit (digits (n div 10))" by simp
    moreover have "is_digit (digit (n mod 10))" by (rule is_digit_digit) simp
    ultimately show ?thesis using False by (simp add: digits.simps [of n])
  qed
qed

lemma digits_value_snoc:
  "digits_value (xs @ [c]) = 10 * digits_value xs + (unat c - 48)"
  by (simp add: digits_value_def)

lemma digits_value_Nil: "digits_value [] = 0"
  by (simp add: digits_value_def)

lemma digits_value_digits: "digits_value (digits n) = n"
proof (induction n rule: digits.induct)
  case (1 n)
  show ?case
  proof (cases "n < 10")
    case True
    then show ?thesis
      using digits_value_snoc [of "[]" "digit n"]
      by (simp add: digits.simps [of n] unat_digit digits_value_Nil)
  next
    case False
    with 1 have "digits_value (digits (n div 10)) = n div 10" by simp
    moreover have "unat (digit (n mod 10)) - 48 = n mod 10" by (rule unat_digit) simp
    ultimately show ?thesis
      using False by (simp add: digits.simps [of n] digits_value_snoc)
  qed
qed

lemma digits_value_append:
  "digits_value (a @ b) = digits_value a * 10 ^ length b + digits_value b"
proof (induction b rule: rev_induct)
  case Nil
  show ?case by (simp add: digits_value_Nil)
next
  case (snoc c b)
  have "digits_value (a @ b @ [c]) = 10 * digits_value (a @ b) + (unat c - 48)"
    using digits_value_snoc [of "a @ b" c] by simp
  with snoc show ?case by (simp add: digits_value_snoc algebra_simps)
qed

lemma digits_value_zeros: "digits_value (replicate k 48) = 0"
proof (induction k)
  case 0
  show ?case by (simp add: digits_value_Nil)
next
  case (Suc k)
  have "replicate (Suc k) (48 :: 16 word) = replicate k 48 @ [48]"
    by (simp add: replicate_append_same)
  then have "digits_value (replicate (Suc k) 48) = 10 * digits_value (replicate k 48) + (unat (48 :: 16 word) - 48)"
    by (simp only: digits_value_snoc)
  with Suc show ?case by simp
qed

lemma digits_value_pad: "digits_value (replicate k 48 @ xs) = digits_value xs"
  by (simp add: digits_value_append digits_value_zeros)

lemma zeros_replicate: "zeros s = (s \<noteq> [] \<and> s = replicate (length s) 48)"
  by (induction s rule: zeros.induct) auto

lemma zeros_value: "zeros s \<Longrightarrow> digits_value s = 0"
  using digits_value_zeros [of "length s"] by (simp add: zeros_replicate)

lemma frac_Cons: "frac (c # cs) = (of_nat (unat c - 48) + frac cs) / 10"
proof -
  have "digits_value (c # cs) = (unat c - 48) * 10 ^ length cs + digits_value cs"
    using digits_value_append [of "[c]" cs] digits_value_snoc [of "[]" c]
    by (simp add: digits_value_Nil)
  then show ?thesis
    by (simp add: frac_def field_simps)
qed

lemma replace_trailing_digits:
  "46 \<notin> set b \<Longrightarrow>
     frac (replace_trailing b) = frac b \<and> set (replace_trailing b) \<subseteq> set b \<and>
     (replace_trailing b = [] \<longleftrightarrow> b = [] \<or> zeros b)"
proof (induction b)
  case Nil
  show ?case by simp
next
  case (Cons c cs)
  then have ih: "frac (replace_trailing cs) = frac cs" "set (replace_trailing cs) \<subseteq> set cs"
    by simp_all
  from Cons.prems have c: "c \<noteq> 46" by auto
  show ?case
  proof (cases "zeros (c # cs)")
    case True
    then have "frac (c # cs) = 0" by (simp add: frac_def zeros_value)
    with True show ?thesis by (simp add: frac_def digits_value_Nil)
  next
    case False
    with c have "replace_trailing (c # cs) = c # replace_trailing cs" by simp
    with ih False show ?thesis by (auto simp add: frac_Cons)
  qed
qed

lemma replace_trailing_before_dot:
  "46 \<notin> set p \<Longrightarrow> replace_trailing (p @ 46 # b) = p @ replace_trailing (46 # b)"
proof (induction p)
  case Nil
  show ?case by simp
next
  case (Cons c p)
  have "\<not> zeros (c # p @ 46 # b)" "\<not> zeros (p @ 46 # b)"
    using zeros_no_dot [of "c # p @ 46 # b"] zeros_no_dot [of "p @ 46 # b"] by auto
  with Cons show ?case by auto
qed

lemma replace_trailing_dot:
  "replace_trailing (46 # b) = (if zeros b then [] else 46 # replace_trailing b)"
  by (cases b) (auto simp add: zeros_iff)

lemma is_digit_zero: "is_digit 48" "\<not> is_digit 46" "\<not> is_digit 45"
  by (simp_all add: is_digit_def)

lemma toFixed_small:
  assumes "\<bar>x\<bar> < 10 ^ 21"
  shows "\<exists>a b. toFixed x 6 = (if x < 0 then [45] else []) @ a @ 46 # b \<and>
           list_all is_digit a \<and> a \<noteq> [] \<and> list_all is_digit b \<and> length b = 6 \<and>
           digits_value (a @ b) = nat \<lfloor>\<bar>x\<bar> * 10 ^ 6 + 1 / 2\<rfloor>"
proof -
  define m where "m = digits (nat \<lfloor>\<bar>x\<bar> * 10 ^ 6 + 1 / 2\<rfloor>)"
  define k where "k = length m"
  define m' where "m' = (if k \<le> 6 then replicate (6 + 1 - k) 48 @ m else m)"
  define k' where "k' = (if k \<le> 6 then 6 + 1 else k)"
  have t: "toFixed x 6 = (if x < 0 then [45] else []) @ take (k' - 6) m' @ 46 # drop (k' - 6) m'"
    using assms by (simp add: toFixed_def Let_def m_def k_def m'_def k'_def js_def)
  have len: "length m' = k'" "7 \<le> k'"
    by (auto simp add: m'_def k'_def k_def)
  have dig: "list_all is_digit m'"
    using digits_all_digit [of "nat \<lfloor>\<bar>x\<bar> * 10 ^ 6 + 1 / 2\<rfloor>"]
    by (simp add: m'_def m_def list_all_iff is_digit_zero)
  have val: "digits_value m' = nat \<lfloor>\<bar>x\<bar> * 10 ^ 6 + 1 / 2\<rfloor>"
    by (simp add: m'_def m_def digits_value_pad digits_value_digits)
  have "list_all is_digit (take (k' - 6) m')" "list_all is_digit (drop (k' - 6) m')"
    using dig by (auto simp add: list_all_iff dest: in_set_takeD in_set_dropD)
  moreover have "take (k' - 6) m' \<noteq> []" "length (drop (k' - 6) m') = 6"
    using len by auto
  moreover have "digits_value (take (k' - 6) m' @ drop (k' - 6) m') =
      nat \<lfloor>\<bar>x\<bar> * 10 ^ 6 + 1 / 2\<rfloor>"
    by (simp add: val)
  ultimately show ?thesis using t by blast
qed

lemma round_half_up_near:
  assumes "0 \<le> (y :: real)"
  shows "\<bar>of_nat (nat \<lfloor>y + 1 / 2\<rfloor>) - y\<bar> \<le> 1 / 2"
proof -
  have "0 \<le> \<lfloor>y + 1 / 2\<rfloor>" using assms by simp
  then have "of_nat (nat \<lfloor>y + 1 / 2\<rfloor>) = (of_int \<lfloor>y + 1 / 2\<rfloor> :: real)" by simp
  moreover have "of_int \<lfloor>y + 1 / 2\<rfloor> \<le> y + 1 / 2" "y + 1 / 2 < of_int \<lfloor>y + 1 / 2\<rfloor> + 1"
    by linarith+
  ultimately show ?thesis by linarith
qed

lemma startsWith_Nil: "startsWith [] (js ''-'') = False" "startsWith [] (js ''.'') = False"
  "startsWith [] (js ''e+'') = False"
  by (simp_all add: startsWith_def js_def)

lemma startsWith_Cons1:
  "startsWith (c # cs) (js ''-'') = (c = 45)" "startsWith (c # cs) (js ''.'') = (c = 46)"
  by (auto simp add: startsWith_def js_def)

lemma takeWhile_digits:
  "list_all is_digit a \<Longrightarrow> takeWhile is_digit a = a"
  "list_all is_digit a \<Longrightarrow> dropWhile is_digit a = []"
  "list_all is_digit a \<Longrightarrow> takeWhile is_digit (a @ 46 # f) = a"
  "list_all is_digit a \<Longrightarrow> dropWhile is_digit (a @ 46 # f) = 46 # f"
  by (simp_all add: list_all_iff takeWhile_append2 dropWhile_append2 is_digit_zero)

lemma unsigned_value_integer:
  assumes "list_all is_digit a" and "a \<noteq> []"
  shows "unsigned_value a = Some (of_nat (digits_value a))"
proof -
  have "int_part a = a" "after_int a = []"
    by (simp_all add: int_part_def after_int_def takeWhile_digits [OF assms(1)])
  moreover have "has_point [] = False" "after_frac [] = []" "frac_part [] = []"
    "has_exp [] = False" "after_exp [] = []" "exp_part [] = []"
    by (simp_all add: has_point_def after_frac_def frac_part_def has_exp_def after_exp_def
        exp_part_def startsWith_Nil)
  ultimately show ?thesis
    using assms(2) by (simp add: unsigned_value_def Let_def digits_value_Nil)
qed

lemma unsigned_value_fraction:
  assumes "list_all is_digit a" and "a \<noteq> []" and "list_all is_digit f" and "f \<noteq> []"
  shows "unsigned_value (a @ 46 # f) = Some (of_nat (digits_value a) + frac f)"
proof -
  have "int_part (a @ 46 # f) = a" "after_int (a @ 46 # f) = 46 # f"
    by (simp_all add: int_part_def after_int_def takeWhile_digits [OF assms(1)])
  moreover have "has_point (46 # f) = True"
    by (simp add: has_point_def startsWith_Cons1)
  moreover have "frac_part (46 # f) = f" "after_frac (46 # f) = []"
    by (simp_all add: has_point_def frac_part_def after_frac_def startsWith_Cons1
        takeWhile_digits [OF assms(3)])
  moreover have "has_exp [] = False" "after_exp [] = []" "exp_part [] = []"
    by (simp_all add: has_exp_def after_exp_def exp_part_def startsWith_Nil)
  ultimately show ?thesis
    using assms(2,4) by (simp add: unsigned_value_def Let_def digits_value_Nil frac_def)
qed

lemma decimal_value_fixed:
  assumes a: "list_all is_digit a" "a \<noteq> []" and f: "list_all is_digit f"
    and s: "s = [] \<or> s = [45]"
  shows "decimal_value (s @ a @ (if f = [] then [] else 46 # f)) =
           Some ((if s = [] then 1 else - 1) * (of_nat (digits_value a) + frac f))"
proof -
  obtain c a' where ac: "a = c # a'" using a(2) by (cases a) auto
  with a(1) have "is_digit c" by simp
  then have c45: "c \<noteq> 45" using is_digit_zero(3) by auto
  have u: "unsigned_value (a @ (if f = [] then [] else 46 # f)) =
      Some (of_nat (digits_value a) + frac f)"
  proof (cases "f = []")
    case True
    then show ?thesis
      using unsigned_value_integer [OF a] by (simp add: frac_def digits_value_Nil)
  next
    case False
    then show ?thesis
      using unsigned_value_fraction [OF a f False] by simp
  qed
  from s show ?thesis
  proof
    assume "s = []"
    moreover have "\<not> startsWith (a @ (if f = [] then [] else 46 # f)) (js ''-'')"
      using c45 by (simp add: ac startsWith_Cons1)
    ultimately show ?thesis
      using u by (simp add: decimal_value_def)
  next
    assume "s = [45]"
    moreover have "startsWith (45 # a @ (if f = [] then [] else 46 # f)) (js ''-'')"
      by (simp add: startsWith_Cons1)
    ultimately show ?thesis
      using u by (simp add: decimal_value_def)
  qed
qed

lemma fmt_round_trip:
  assumes "\<bar>x\<bar> < 10 ^ 21"
  shows "\<exists>v. decimal_value (fmt x) = Some v \<and> \<bar>v - x\<bar> \<le> 1 / (2 * 10 ^ 6)"
proof (cases "\<bar>x\<bar> < lit_1e_12")
  case True
  have "decimal_value (fmt x) = Some 0"
    using True decimal_value_fixed [of "[48]" "[]" "[]"]
    by (simp add: fmt_def js_def is_digit_zero frac_def digits_value_def)
  moreover have "\<bar>0 - x\<bar> \<le> 1 / (2 * 10 ^ 6)"
    using True by (simp add: lit_1e_12_value)
  ultimately show ?thesis by blast
next
  case False
  define s :: js_string where "s = (if x < 0 then [45] else [])"
  define n where "n = nat \<lfloor>\<bar>x\<bar> * 10 ^ 6 + 1 / 2\<rfloor>"
  from toFixed_small [OF assms] obtain a b where
    t: "toFixed x 6 = s @ a @ 46 # b" and a: "list_all is_digit a" "a \<noteq> []" and
    b: "list_all is_digit b" "length b = 6" and v: "digits_value (a @ b) = n"
    unfolding s_def n_def by blast
  have s: "s = [] \<or> s = [45]" by (simp add: s_def)
  have nd: "46 \<notin> set (s @ a)" "46 \<notin> set b"
    using a(1) b(1) s is_digit_zero(2) by (auto simp add: list_all_iff)
  define f where "f = replace_trailing b"
  from replace_trailing_digits [OF nd(2)] b(2)
  have f: "frac f = frac b" "set f \<subseteq> set b" "(f = []) = zeros b"
    by (auto simp add: f_def)
  have fd: "list_all is_digit f"
    using f(2) b(1) by (auto simp add: list_all_iff)
  have "fmt x = replace_trailing ((s @ a) @ 46 # b)"
    using False by (simp add: fmt_def t)
  also have "\<dots> = (s @ a) @ replace_trailing (46 # b)"
    by (rule replace_trailing_before_dot [OF nd(1)])
  also have "\<dots> = s @ a @ (if f = [] then [] else 46 # f)"
    unfolding replace_trailing_dot f_def [symmetric] using f(3) by simp
  finally have dv: "decimal_value (fmt x) =
      Some ((if s = [] then 1 else - 1) * (of_nat (digits_value a) + frac f))"
    by (simp add: decimal_value_fixed [OF a fd s])
  have eq: "of_nat (digits_value a) + frac f = of_nat n / 10 ^ 6"
  proof -
    have "frac f = of_nat (digits_value b) / 10 ^ 6"
      using f(1) b(2) by (simp add: frac_def)
    moreover have "n = digits_value a * 10 ^ 6 + digits_value b"
      using v b(2) by (simp add: digits_value_append)
    ultimately show ?thesis by (simp add: field_simps)
  qed
  have bd: "\<bar>(if s = [] then 1 else - 1) * (of_nat n / 10 ^ 6) - x\<bar> \<le> 1 / (2 * 10 ^ 6)"
  proof -
    define q :: real where "q = of_nat n / 10 ^ 6"
    have "\<bar>of_nat n - \<bar>x\<bar> * 10 ^ 6\<bar> \<le> 1 / 2"
      unfolding n_def by (rule round_half_up_near) simp
    then have h: "\<bar>q - \<bar>x\<bar>\<bar> \<le> 1 / (2 * 10 ^ 6)"
      by (simp add: q_def field_simps abs_le_iff)
    have "\<bar>(if s = [] then 1 else - 1) * q - x\<bar> \<le> 1 / (2 * 10 ^ 6)"
    proof (cases "x < 0")
      case True
      then have "(if s = [] then 1 else - 1) * q - x = - (q - \<bar>x\<bar>)"
        by (simp add: s_def)
      then show ?thesis using h by (simp only: abs_minus)
    next
      case False
      then have "(if s = [] then 1 else - 1) * q - x = q - \<bar>x\<bar>"
        by (simp add: s_def)
      then show ?thesis using h by (simp only:)
    qed
    then show ?thesis by (simp only: q_def)
  qed
  from dv have "decimal_value (fmt x) = Some ((if s = [] then 1 else - 1) * (of_nat n / 10 ^ 6))"
    by (simp only: eq)
  with bd show ?thesis by blast
qed

subsection \<open>The claims about \<open>fmt\<close>\<close>

text \<open>
  C2. A number whose magnitude is below the threshold \<open>1e-12\<close> (the literal of the source,
  that is the double nearest to \<open>10^-12\<close>) renders as \<open>"0"\<close>; in particular
  \<open>fmt(1e-13) = "0"\<close>.
\<close>

theorem fmt_below_threshold:
  "(\<bar>x\<bar> < lit_1e_12 \<longrightarrow> fmt x = js ''0'') \<and> fmt (round_double (1 / 10 ^ 13)) = js ''0''"
  unfolding lit_1e_13 by (simp add: fmt_def lit_1e_12_value)

theorem fmt_below_threshold_witness:
  "\<bar>- (1 / 2 ^ 40) :: real\<bar> < lit_1e_12 \<and> fmt (- (1 / 2 ^ 40)) = js ''0''"
proof -
  have h: "\<bar>- (1 / 2 ^ 40) :: real\<bar> < lit_1e_12"
    by (simp add: lit_1e_12_value)
  from fmt_below_threshold [of "- (1 / 2 ^ 40)"] h show ?thesis by blast
qed

text \<open>
  C3. For a number of magnitude \<open>1e-12\<close> or more, the result does not end in a point and
  has no trailing zero: when it has a point (46), its last character is not \<open>0\<close> (48).
  A result without a point may end in \<open>0\<close>, which is then a digit of the integer part,
  as in \<open>"10"\<close>. In particular \<open>fmt(0.1) = "0.1"\<close>, \<open>fmt(1.5) = "1.5"\<close> and
  \<open>fmt(-2) = "-2"\<close>.
\<close>

theorem fmt_no_trailing_zeros:
  assumes "lit_1e_12 \<le> \<bar>x\<bar>"
  shows "fmt x \<noteq> [] \<and> last (fmt x) \<noteq> 46 \<and> (46 \<in> set (fmt x) \<longrightarrow> last (fmt x) \<noteq> 48) \<and>
         fmt (round_double (1 / 10)) = js ''0.1'' \<and>
         fmt (round_double (3 / 2)) = js ''1.5'' \<and>
         fmt (round_double (- 2)) = js ''-2''"
  using fmt_shape [of x] fmt_0_1 fmt_1_5 fmt_minus_2 by simp

theorem fmt_no_trailing_zeros_witness:
  "lit_1e_12 \<le> \<bar>3 / 2 :: real\<bar> \<and> 46 \<in> set (fmt (3 / 2)) \<and> last (fmt (3 / 2)) \<noteq> 48 \<and>
   last (fmt (3 / 2)) \<noteq> 46"
proof -
  have h: "lit_1e_12 \<le> \<bar>3 / 2 :: real\<bar>"
    by (simp add: lit_1e_12_value)
  have d: "46 \<in> set (fmt (3 / 2))"
    using fmt_1_5 by (simp add: lit_1_5 js_def)
  from fmt_no_trailing_zeros [OF h] h d show ?thesis by blast
qed

text \<open>
  C4. Reading the result of \<open>fmt\<close> back gives a number within \<open>1e-6\<close> of the argument
  below \<open>10^21\<close> (\<open>fmt_round_trip\<close> above), but not at the number \<open>1e30\<close>: its magnitude
  is above the threshold, \<open>toFixed(6)\<close> gives \<open>"1e+30"\<close>, the pattern matches the final \<open>0\<close>
  of the exponent, and \<open>fmt\<close> returns \<open>"1e+3"\<close>, which denotes 1000.
\<close>

theorem fmt_1e30_round_trip:
  "lit_1e_12 \<le> \<bar>round_double (10 ^ 30)\<bar> \<and>
   toFixed (round_double (10 ^ 30)) 6 = js ''1e+30'' \<and>
   fmt (round_double (10 ^ 30)) = js ''1e+3'' \<and>
   decimal_value (fmt (round_double (10 ^ 30))) = Some 1000 \<and>
   1 / 10 ^ 6 < \<bar>1000 - round_double (10 ^ 30)\<bar>"
  unfolding lit_1e30 by (simp add: fmt_1e30 value_1e3 toFixed_1e30 lit_1e_12_value)

text \<open>
  C10. \<open>fmt\<close> can return \<open>"-0"\<close>. A number of magnitude \<open>1e-12\<close> or more that rounds to zero
  at six decimals (its magnitude is below \<open>0.0000005\<close>) renders as \<open>"-0"\<close> when it is
  negative and as \<open>"0"\<close> when it is positive; \<open>-1e-8\<close> and \<open>1e-8\<close> are such numbers.
\<close>

theorem fmt_minus_zero:
  "(lit_1e_12 \<le> \<bar>x\<bar> \<and> \<bar>x\<bar> < 1 / 2000000 \<longrightarrow>
      fmt x = (if x < 0 then js ''-0'' else js ''0'')) \<and>
   lit_1e_12 \<le> \<bar>round_double (- (1 / 10 ^ 8))\<bar> \<and>
   fmt (round_double (- (1 / 10 ^ 8))) = js ''-0'' \<and>
   fmt (round_double (1 / 10 ^ 8)) = js ''0''"
proof -
  have a: "lit_1e_12 \<le> \<bar>round_double (- (1 / 10 ^ 8))\<bar>"
    unfolding lit_minus_1e_8 by (simp add: lit_1e_12_value)
  have b: "\<bar>round_double (- (1 / 10 ^ 8))\<bar> < 1 / 2000000"
    unfolding lit_minus_1e_8 by simp
  have c: "lit_1e_12 \<le> \<bar>round_double (1 / 10 ^ 8)\<bar>"
    unfolding lit_1e_8 by (simp add: lit_1e_12_value)
  have d: "\<bar>round_double (1 / 10 ^ 8)\<bar> < 1 / 2000000"
    unfolding lit_1e_8 by simp
  have e: "round_double (- (1 / 10 ^ 8)) < 0" "\<not> round_double (1 / 10 ^ 8) < 0"
    unfolding lit_minus_1e_8 lit_1e_8 by simp_all
  have f: "fmt (round_double (- (1 / 10 ^ 8))) = js ''-0''"
    using fmt_small [OF a b] e by simp
  have g: "fmt (round_double (1 / 10 ^ 8)) = js ''0''"
    using fmt_small [OF c d] e by simp
  show ?thesis
    using a f g fmt_small [of x] by blast
qed

theorem fmt_minus_zero_witness:
  "lit_1e_12 \<le> \<bar>- (1 / 2 ^ 27) :: real\<bar> \<and> \<bar>- (1 / 2 ^ 27) :: real\<bar> < 1 / 2000000 \<and>
   fmt (- (1 / 2 ^ 27)) = js ''-0''"
proof -
  have h: "lit_1e_12 \<le> \<bar>- (1 / 2 ^ 27) :: real\<bar>" "\<bar>- (1 / 2 ^ 27) :: real\<bar> < 1 / 2000000"
    by (simp_all add: lit_1e_12_value)
  from fmt_minus_zero [of "- (1 / 2 ^ 27)"] h show ?thesis by simp
qed

section \<open>Properties of the report\<close>

subsection \<open>Elements of the tree\<close>

lemma elements_Nil: "elements t [] = []"
  by (simp add: elements_def)

lemma elements_append: "elements t (xs @ ys) = elements t xs @ elements t ys"
  by (simp add: elements_def)

lemma elements_Text: "elements t (Text s # ns) = elements t ns"
  by (simp add: elements_def)

lemma elements_Num: "elements t (Num x # ns) = elements t ns"
  by (simp add: elements_def)

lemma elements_Elem:
  "elements t (Elem t' ps cs # ns) =
     (if t' = t then [Elem t' ps cs] else []) @ elements t cs @ elements t ns"
  by (simp add: elements_def)

lemma elements_concat:
  "elements t (concat (map f xs)) = concat (map (\<lambda>x. elements t (f x)) xs)"
  by (induction xs) (simp_all add: elements_Nil elements_append)

lemma elements_cells:
  "t \<noteq> ''td'' \<Longrightarrow> elements t (map (\<lambda>c. Elem ''td'' [] [Text (f c)]) cs) = []"
  by (induction cs) (simp_all add: elements_Nil elements_Elem elements_Text)

lemma elements_table_row:
  "t \<noteq> ''td'' \<Longrightarrow> t \<noteq> ''tr'' \<Longrightarrow> elements t (table_row idx m # ns) = elements t ns"
  by (simp add: table_row_def elements_Elem elements_append elements_cells elements_Text
      elements_Num elements_Nil)

lemma elements_rows:
  "t \<noteq> ''td'' \<Longrightarrow> t \<noteq> ''tr'' \<Longrightarrow>
     elements t (map (\<lambda>(idx, m). table_row idx m) ims) = []"
  by (induction ims) (auto simp add: elements_Nil elements_table_row)

lemma elements_table_head:
  "t \<noteq> ''thead'' \<Longrightarrow> t \<noteq> ''tr'' \<Longrightarrow> t \<noteq> ''th'' \<Longrightarrow>
     elements t (table_head # ns) = elements t ns"
  by (simp add: table_head_def th_def elements_Elem elements_Text elements_Nil)

lemmas elements_simps = elements_Nil elements_append elements_Text elements_Num elements_Elem
  elements_concat elements_table_row elements_rows elements_table_head

lemma elements_Intro:
  "elements ''table'' Intro = []" "elements ''div'' Intro = []" "elements ''img'' Intro = []"
  by (simp_all add: Intro_def elements_simps)

lemma row_shape_table_row:
  "row_shape (table_row idx m) = (length (coef m) + 6, idx mod 2 \<noteq> 0)"
proof -
  have "filter (has_tag ''td'') (map (\<lambda>c. Elem ''td'' [] [Text (fmt c)]) cs) =
      map (\<lambda>c. Elem ''td'' [] [Text (fmt c)]) cs" for cs
    by (induction cs) simp_all
  then show ?thesis
    by (simp add: row_shape_def table_row_def has_class_def)
qed

lemma tables_of_block: "elements ''table'' (operation_block resolve entry) = [the_table entry]"
  unfolding operation_block_def Let_def the_table_def
  by (simp add: elements_simps)

lemma body_rows_the_table:
  "body_rows (the_table entry) =
     map (\<lambda>(idx, m). table_row idx m) (enumerate 0 (models (snd entry)))"
  unfolding body_rows_def the_table_def
  by (simp add: elements_simps)

lemma shapes_the_table:
  "map row_shape (body_rows (the_table entry)) =
     map (\<lambda>(idx, m). (length (coef m) + 6, idx mod 2 \<noteq> 0)) (enumerate 0 (models (snd entry)))"
  by (auto simp add: body_rows_the_table row_shape_table_row)

lemma tables_of_report:
  "elements ''table'' (RegressionReport resolve reportData) =
     map the_table (Object_entries reportData)"
proof -
  have "concat (map (\<lambda>x. elements ''table'' (operation_block resolve x)) es) = map the_table es"
    for es
    by (induction es) (simp_all add: tables_of_block)
  then show ?thesis
    unfolding RegressionReport_def
    by (simp add: elements_simps elements_Intro)
qed

lemma table_shapes_report:
  "table_shapes (RegressionReport resolve reportData) =
     map (\<lambda>entry. map (\<lambda>(idx, m). (length (coef m) + 6, idx mod 2 \<noteq> 0))
                    (enumerate 0 (models (snd entry))))
       (Object_entries reportData)"
  by (simp add: table_shapes_def tables_of_report shapes_the_table comp_def)

lemma length_Object_entries: "length (Object_entries obj) = length obj"
proof -
  have "length (filter (\<lambda>p. array_index (fst p) \<noteq> None) obj) +
      length (filter (\<lambda>p. \<not> array_index (fst p) \<noteq> None) obj) = length obj"
    by (rule sum_length_filter_compl)
  then show ?thesis by (simp add: Object_entries_def)
qed

lemma divs_of_block: "elements ''div'' (operation_block resolve entry) = [the_caption entry]"
  unfolding operation_block_def Let_def the_caption_def
  by (simp add: elements_simps)

lemma CLS_body_not_caption: "CLS_body \<noteq> CLS_caption"
  by (simp add: CLS_body_def CLS_caption_def js_def)

lemma caption_ops_report:
  "caption_ops (RegressionReport resolve reportData) = map fst (Object_entries reportData)"
proof -
  have c: "concat (map (\<lambda>x. elements ''div'' (operation_block resolve x)) es) =
      map the_caption es" for es
    by (induction es) (simp_all add: divs_of_block)
  have f: "filter (has_class CLS_caption) (map the_caption es) = map the_caption es" for es
    by (induction es) (simp_all add: the_caption_def has_class_def)
  show ?thesis
    unfolding RegressionReport_def caption_ops_def
    by (simp add: elements_simps elements_Intro c f has_class_def CLS_body_not_caption)
      (simp add: the_caption_def)
qed

lemma imgs_of_block:
  "elements ''img'' (operation_block resolve entry) =
     [Elem ''img''
        [(''className'', Str CLS_img),
         (''src'', Str (resolve (js ''./assets/'' @ image_file (snd entry)))),
         (''alt'', Str (text_chart @ fst entry))] []]"
  unfolding operation_block_def Let_def
  by (simp add: elements_simps)

lemma chart_props_report:
  "chart_props (RegressionReport resolve reportData) =
     map (\<lambda>entry. (Some (Str (resolve (js ''./assets/'' @ image_file (snd entry)))),
                    Some (Str (text_chart @ fst entry))))
       (Object_entries reportData)"
proof -
  have "map (\<lambda>n. (map_of (props n) ''src'', map_of (props n) ''alt''))
      (concat (map (\<lambda>x. elements ''img'' (operation_block resolve x)) es)) =
      map (\<lambda>entry. (Some (Str (resolve (js ''./assets/'' @ image_file (snd entry)))),
                    Some (Str (text_chart @ fst entry)))) es" for es
    by (induction es) (simp_all add: imgs_of_block)
  then show ?thesis
    unfolding RegressionReport_def chart_props_def
    by (simp add: elements_simps elements_Intro)
qed

lemma obj_define_new: "k \<notin> fst ` set obj \<Longrightarrow> obj_define obj k v = obj @ [(k, v)]"
  by (induction obj) auto

lemma from_json_snoc: "from_json (ms @ [(k, v)]) = obj_define (from_json ms) k v"
  by (simp add: from_json_def)

lemma from_json_distinct: "distinct (map fst ms) \<Longrightarrow> from_json ms = ms"
proof (induction ms rule: rev_induct)
  case Nil
  show ?case by (simp add: from_json_def)
next
  case (snoc x xs)
  obtain k v where x: "x = (k, v)" by (cases x)
  from snoc.prems have d: "distinct (map fst xs)" and n: "k \<notin> fst ` set xs"
    by (simp_all add: x)
  from snoc.IH [OF d] n show ?case
    by (simp add: x from_json_snoc obj_define_new)
qed

lemma Object_entries_no_index:
  "list_all (\<lambda>k. array_index k = None) (map fst obj) \<Longrightarrow> Object_entries obj = obj"
proof -
  assume a: "list_all (\<lambda>k. array_index k = None) (map fst obj)"
  then have "filter (\<lambda>p. array_index (fst p) \<noteq> None) obj = []"
    by (induction obj) simp_all
  moreover from a have "filter (\<lambda>p. array_index (fst p) = None) obj = obj"
    by (induction obj) simp_all
  ultimately show ?thesis by (simp add: Object_entries_def)
qed

lemma array_index_examples:
  "array_index (js ''insert'') = None" "array_index (js ''search'') = None"
  "array_index (js ''10'') = Some 10" "array_index (js ''9'') = Some 9"
  "array_index (js ''007'') = None" "array_index (js ''4294967295'') = None"
  "array_index (js ''4294967294'') = Some 4294967294" "array_index [] = None"
  by (simp_all add: array_index_def digits_value_def js_def digits.simps digit_def Let_def)

lemma entries_example:
  "Object_entries (from_json [(js ''search'', a), (js ''10'', b), (js ''9'', c)]) =
     [(js ''9'', c), (js ''10'', b), (js ''search'', a)]"
proof -
  have "from_json [(js ''search'', a), (js ''10'', b), (js ''9'', c)] =
      [(js ''search'', a), (js ''10'', b), (js ''9'', c)]"
    by (rule from_json_distinct) (simp add: js_def)
  then show ?thesis
    by (simp add: Object_entries_def array_index_examples index_key_def)
qed

subsection \<open>The claims about the report\<close>

text \<open>
  C6, as the code has it. The report has one table per property of the data, in the
  order of \<open>Object.entries\<close>; a table has one body row per model, in order; the row of a
  model has one cell per coefficient of the model and six more (degree, variance,
  standard deviation, code, explanation, comment); and the row at index \<open>idx\<close> has the
  class \<open>rep-row-even\<close> exactly when \<open>idx\<close> is odd. \<open>table_shapes\<close> lists, per table, the
  number of cells and the styling of each body row.
\<close>

theorem report_tables:
  "table_shapes (RegressionReport resolve reportData) =
     map (\<lambda>entry. map (\<lambda>(idx, m). (length (coef m) + 6, odd idx))
                    (enumerate 0 (models (snd entry))))
       (Object_entries reportData) \<and>
   length (elements ''table'' (RegressionReport resolve reportData)) = length reportData"
  by (simp add: table_shapes_report tables_of_report length_Object_entries
      odd_iff_mod_2_eq_one)

text \<open>
  C6, as the spec states it, fails: for an operation with two models of two
  coefficients each, the rows have eight cells, not the seven of "coefficient slots plus
  five".
\<close>

theorem report_columns_not_plus_five:
  "map (map fst) (table_shapes (RegressionReport id [(js ''insert'', example_info)])) \<noteq>
     [[length (coef example_model) + 5, length (coef example_model) + 5]]"
proof -
  have "array_index (js ''insert'') = None"
    by (rule array_index_examples)
  then have "Object_entries [(js ''insert'', example_info)] = [(js ''insert'', example_info)]"
    by (simp add: Object_entries_def)
  then show ?thesis
    by (simp add: table_shapes_report example_info_def example_model_def enumerate_eq_zip)
qed

lemma blocks_of_report:
  "drop (Suc (length Intro)) (children (RegressionReport resolve reportData ! 1)) =
     concat (map (operation_block resolve) (Object_entries reportData))"
  by (simp add: RegressionReport_def)

lemma block_parts:
  "map (has_tag ''div'') (operation_block resolve entry) = [True, False, False] \<and>
   map (has_tag ''table'') (operation_block resolve entry) = [False, True, False] \<and>
   map (has_tag ''p'') (operation_block resolve entry) = [False, False, True] \<and>
   operation_block resolve entry ! 0 = the_caption entry \<and>
   operation_block resolve entry ! 1 = the_table entry \<and>
   elements ''img'' [operation_block resolve entry ! 2] =
     elements ''img'' (operation_block resolve entry)"
  by (simp add: operation_block_def Let_def the_caption_def the_table_def elements_simps)

text \<open>
  C7, as the code has it. After the title and \<open>Intro\<close>, the report is the sequence of the
  blocks of the entries of \<open>Object.entries\<close>, each block a caption, its table and its
  chart. So the captions, the tables and the charts all follow the order of
  \<open>Object.entries\<close>: the keys that are array indices first, in ascending numeric order,
  then the other keys in the order of their creation. When the keys of the JSON object
  are distinct and none is an array index, that is the order in which they appear in
  the JSON object.
\<close>

theorem report_order:
  "drop (Suc (length Intro)) (children (RegressionReport resolve (from_json members) ! 1)) =
     concat (map (operation_block resolve) (Object_entries (from_json members))) \<and>
   caption_ops (RegressionReport resolve (from_json members)) =
     map fst (Object_entries (from_json members)) \<and>
   elements ''table'' (RegressionReport resolve (from_json members)) =
     map the_table (Object_entries (from_json members)) \<and>
   chart_props (RegressionReport resolve (from_json members)) =
     map (\<lambda>entry. (Some (Str (resolve (js ''./assets/'' @ image_file (snd entry)))),
                    Some (Str (text_chart @ fst entry))))
       (Object_entries (from_json members)) \<and>
   (distinct (map fst members) \<and> list_all (\<lambda>k. array_index k = None) (map fst members) \<longrightarrow>
      drop (Suc (length Intro)) (children (RegressionReport resolve (from_json members) ! 1)) =
        concat (map (operation_block resolve) members) \<and>
      caption_ops (RegressionReport resolve (from_json members)) = map fst members \<and>
      elements ''table'' (RegressionReport resolve (from_json members)) =
        map the_table members \<and>
      chart_props (RegressionReport resolve (from_json members)) =
        map (\<lambda>entry. (Some (Str (resolve (js ''./assets/'' @ image_file (snd entry)))),
                       Some (Str (text_chart @ fst entry))))
          members)"
proof -
  have "Object_entries (from_json members) = members"
    if "distinct (map fst members)" "list_all (\<lambda>k. array_index k = None) (map fst members)"
    using that by (simp add: from_json_distinct Object_entries_no_index)
  then have e: "distinct (map fst members) \<and>
      list_all (\<lambda>k. array_index k = None) (map fst members) \<Longrightarrow>
      Object_entries (from_json members) = members"
    by blast
  note b = blocks_of_report [of resolve "from_json members"]
  note c = caption_ops_report [of resolve "from_json members"]
  note t = tables_of_report [of resolve "from_json members"]
  note p = chart_props_report [of resolve "from_json members"]
  show ?thesis
  proof (intro conjI impI)
    assume h: "distinct (map fst members) \<and>
      list_all (\<lambda>k. array_index k = None) (map fst members)"
    show "drop (Suc (length Intro))
        (children (RegressionReport resolve (from_json members) ! 1)) =
        concat (map (operation_block resolve) members)"
      using b e [OF h] by simp
    show "caption_ops (RegressionReport resolve (from_json members)) = map fst members"
      using c e [OF h] by simp
    show "elements ''table'' (RegressionReport resolve (from_json members)) =
        map the_table members"
      using t e [OF h] by simp
    show "chart_props (RegressionReport resolve (from_json members)) =
        map (\<lambda>entry. (Some (Str (resolve (js ''./assets/'' @ image_file (snd entry)))),
                       Some (Str (text_chart @ fst entry))))
          members"
      using p e [OF h] by simp
  qed (rule b c t p)+
qed

theorem report_order_witness:
  "distinct (map fst [(js ''insert'', example_info), (js ''search'', example_info)]) \<and>
   list_all (\<lambda>k. array_index k = None)
     (map fst [(js ''insert'', example_info), (js ''search'', example_info)]) \<and>
   caption_ops (RegressionReport id
     (from_json [(js ''insert'', example_info), (js ''search'', example_info)])) =
     [js ''insert'', js ''search''] \<and>
   elements ''table'' (RegressionReport id
     (from_json [(js ''insert'', example_info), (js ''search'', example_info)])) =
     [the_table (js ''insert'', example_info), the_table (js ''search'', example_info)]"
proof -
  have d: "distinct (map fst [(js ''insert'', example_info), (js ''search'', example_info)])"
    by (simp add: js_def)
  have n: "list_all (\<lambda>k. array_index k = None)
      (map fst [(js ''insert'', example_info), (js ''search'', example_info)])"
    by (simp add: array_index_examples)
  from report_order [of id "[(js ''insert'', example_info), (js ''search'', example_info)]"] d n
  have "caption_ops (RegressionReport id
      (from_json [(js ''insert'', example_info), (js ''search'', example_info)])) =
      map fst [(js ''insert'', example_info), (js ''search'', example_info)]"
    and "elements ''table'' (RegressionReport id
      (from_json [(js ''insert'', example_info), (js ''search'', example_info)])) =
      map the_table [(js ''insert'', example_info), (js ''search'', example_info)]"
    by blast+
  with d n show ?thesis by simp
qed

text \<open>
  C7, as the spec states it, fails: for a JSON object with the keys \<open>search\<close>, \<open>10\<close> and \<open>9\<close>
  in this order, the captions come in the order \<open>9\<close>, \<open>10\<close>, \<open>search\<close>.
\<close>

theorem report_order_not_insertion:
  "caption_ops (RegressionReport id
     (from_json [(js ''search'', example_info), (js ''10'', example_info),
                 (js ''9'', example_info)])) = [js ''9'', js ''10'', js ''search''] \<and>
   caption_ops (RegressionReport id
     (from_json [(js ''search'', example_info), (js ''10'', example_info),
                 (js ''9'', example_info)])) \<noteq> [js ''search'', js ''10'', js ''9'']"
  by (simp add: caption_ops_report entries_example) (simp add: js_def)

section \<open>Properties of the export action\<close>

lemma reportRef_attached:
  "reportRef_current resolve reportData w =
     Some \<lparr>element = RegressionReport resolve reportData ! 1, scrollWidth = w\<rparr>"
  by (simp add: reportRef_current_def RegressionReport_def has_ref_def)

lemma container_of_report:
  "has_class CLS_body (RegressionReport resolve reportData ! 1) \<and>
   has_tag ''div'' (RegressionReport resolve reportData ! 1) \<and>
   elements ''table'' [RegressionReport resolve reportData ! 1] =
     elements ''table'' (RegressionReport resolve reportData)"
  by (simp add: RegressionReport_def has_class_def elements_simps)

lemma opt_value:
  "opt el =
     \<lparr>margin = [10, 10, 10, 10], filename = js ''regression.pdf'', image_type = js ''jpeg'',
      image_quality = round_double (98 / 100), html2canvas_scale = 1,
      html2canvas_width = scrollWidth el, jsPDF_unit = js ''mm'', jsPDF_format = js ''a4'',
      jsPDF_orientation = js ''portrait'',
      pagebreak_mode = [js ''avoid-all'', js ''css''],
      pagebreak_avoid = [js ''.'' @ CLS_table, js ''.'' @ CLS_img]\<rparr>"
  by (simp add: opt_def CLS_table_def CLS_img_def js_def)

lemma lit_0_98: "round_double (98 / 100) = 8827055269646172 / 2 ^ 53"
  unfolding round_defs by (simp add: eval_recs)

text \<open>
  C8, as the code has it. Once the report is rendered the ref is attached, to the \<open>div\<close>
  of class \<open>rep-body\<close> that holds the tables of the report, and the options are those of
  the source: file name \<open>regression.pdf\<close>, margins of 10 on the four sides in
  millimetres, JPEG of quality 0.98, canvas scale 1 and canvas width the scroll width
  of the element, A4 portrait, and the page-break rules \<open>avoid-all\<close> and \<open>css\<close> with the
  selectors of the table and image classes to avoid. A run of the action loads the
  module first. When the module loads, the conversion is started exactly once, against
  that element and with these options, and what the conversion is rejected with is
  left as an unhandled rejection. When the import is rejected, no conversion is
  started and the rejection of the import is left unhandled. Nothing is retried or
  caught.
\<close>

theorem downloadPdf_export:
  "reportRef_current resolve reportData w \<noteq> None \<and>
   (reportRef_current resolve reportData w = Some el \<longrightarrow>
      downloadPdf lib (reportRef_current resolve reportData w) =
        (case import_module lib of
           None \<Rightarrow> \<lparr>conversions = [(opt el, el)],
                    unhandled = map_option Thrown (save lib (opt el) el)\<rparr>
         | Some e \<Rightarrow> \<lparr>conversions = [], unhandled = Some (Thrown e)\<rparr>) \<and>
      has_tag ''div'' (element el) \<and> has_class CLS_body (element el) \<and>
      elements ''table'' [element el] =
        elements ''table'' (RegressionReport resolve reportData) \<and>
      scrollWidth el = w \<and>
      opt el =
        \<lparr>margin = [10, 10, 10, 10], filename = js ''regression.pdf'',
         image_type = js ''jpeg'', image_quality = round_double (98 / 100),
         html2canvas_scale = 1, html2canvas_width = w, jsPDF_unit = js ''mm'',
         jsPDF_format = js ''a4'', jsPDF_orientation = js ''portrait'',
         pagebreak_mode = [js ''avoid-all'', js ''css''],
         pagebreak_avoid = [js ''.'' @ CLS_table, js ''.'' @ CLS_img]\<rparr>)"
proof (intro conjI impI)
  show "reportRef_current resolve reportData w \<noteq> None"
    by (simp add: reportRef_attached)
next
  assume a: "reportRef_current resolve reportData w = Some el"
  then have el: "el = \<lparr>element = RegressionReport resolve reportData ! 1, scrollWidth = w\<rparr>"
    by (simp add: reportRef_attached)
  show w: "scrollWidth el = w"
    by (simp add: el)
  show "downloadPdf lib (reportRef_current resolve reportData w) =
      (case import_module lib of
         None \<Rightarrow> \<lparr>conversions = [(opt el, el)],
                  unhandled = map_option Thrown (save lib (opt el) el)\<rparr>
       | Some e \<Rightarrow> \<lparr>conversions = [], unhandled = Some (Thrown e)\<rparr>)"
    unfolding a by (simp add: downloadPdf_def)
  show "has_tag ''div'' (element el)" "has_class CLS_body (element el)"
    "elements ''table'' [element el] = elements ''table'' (RegressionReport resolve reportData)"
    using container_of_report [of resolve reportData] by (simp_all add: el)
  show "opt el =
      \<lparr>margin = [10, 10, 10, 10], filename = js ''regression.pdf'',
       image_type = js ''jpeg'', image_quality = round_double (98 / 100),
       html2canvas_scale = 1, html2canvas_width = w, jsPDF_unit = js ''mm'',
       jsPDF_format = js ''a4'', jsPDF_orientation = js ''portrait'',
       pagebreak_mode = [js ''avoid-all'', js ''css''],
       pagebreak_avoid = [js ''.'' @ CLS_table, js ''.'' @ CLS_img]\<rparr>"
    using opt_value [of el] w by simp
qed

text \<open>
  A run in which the module loads and the conversion is rejected with the reason 7: one
  conversion is started, and the reason is left unhandled.
\<close>

theorem downloadPdf_export_witness:
  "reportRef_current id [(js ''insert'', example_info)] 800 =
     Some \<lparr>element = RegressionReport id [(js ''insert'', example_info)] ! 1,
           scrollWidth = 800\<rparr> \<and>
   length (conversions (downloadPdf conversion_rejected
     (reportRef_current id [(js ''insert'', example_info)] 800))) = 1 \<and>
   unhandled (downloadPdf conversion_rejected
     (reportRef_current id [(js ''insert'', example_info)] 800)) = Some (Thrown 7)"
proof -
  let ?el = "\<lparr>element = RegressionReport id [(js ''insert'', example_info)] ! 1,
             scrollWidth = 800\<rparr>"
  have r: "reportRef_current id [(js ''insert'', example_info)] 800 = Some ?el"
    by (rule reportRef_attached)
  from downloadPdf_export [of id "[(js ''insert'', example_info)]" 800 ?el conversion_rejected] r
  have "downloadPdf conversion_rejected (reportRef_current id [(js ''insert'', example_info)] 800) =
      (case import_module conversion_rejected of
         None \<Rightarrow> \<lparr>conversions = [(opt ?el, ?el)],
                  unhandled = map_option Thrown (save conversion_rejected (opt ?el) ?el)\<rparr>
       | Some e \<Rightarrow> \<lparr>conversions = [], unhandled = Some (Thrown e)\<rparr>)"
    by blast
  then have "downloadPdf conversion_rejected
      (reportRef_current id [(js ''insert'', example_info)] 800) =
      \<lparr>conversions = [(opt ?el, ?el)], unhandled = Some (Thrown 7)\<rparr>"
    by (simp add: conversion_rejected_def)
  with r show ?thesis by (simp only: export_run.simps list.size) simp
qed

text \<open>
  C8, as the spec states it, fails: the conversion is not started on every trigger. In
  a run in which the import is rejected with the reason 3, no conversion is started,
  and the reason is left unhandled.
\<close>

theorem downloadPdf_import_rejected:
  "conversions (downloadPdf import_rejected
     (reportRef_current id [(js ''insert'', example_info)] 800)) = [] \<and>
   unhandled (downloadPdf import_rejected
     (reportRef_current id [(js ''insert'', example_info)] 800)) = Some (Thrown 3)"
  by (simp add: reportRef_attached downloadPdf_def import_rejected_def)

end
